theory Spec2Isabelle
  imports Complex_Main
begin

section \<open>Numbers and arrays\<close>

text \<open>
  The encoder of \<^verbatim>\<open>photodiag/spatial_encoder.py\<close> works on numpy arrays of
  float64. A float is modelled as an exact real number or one of the three special values;
  rounding, overflow to infinity and the sign of zero are left out, the propagation of
  infinities and NaN is written out.
\<close>

datatype npfloat = Fin real | PInf | NInf | NaN

fun fneg :: "npfloat \<Rightarrow> npfloat" where
  "fneg (Fin a) = Fin (- a)"
| "fneg PInf = NInf"
| "fneg NInf = PInf"
| "fneg NaN = NaN"

fun fadd :: "npfloat \<Rightarrow> npfloat \<Rightarrow> npfloat" where
  "fadd (Fin a) (Fin b) = Fin (a + b)"
| "fadd NaN y = NaN"
| "fadd x NaN = NaN"
| "fadd PInf NInf = NaN"
| "fadd NInf PInf = NaN"
| "fadd PInf y = PInf"
| "fadd x PInf = PInf"
| "fadd NInf y = NInf"
| "fadd x NInf = NInf"

definition fsub :: "npfloat \<Rightarrow> npfloat \<Rightarrow> npfloat" where
  "fsub x y = fadd x (fneg y)"

fun fdiv :: "npfloat \<Rightarrow> npfloat \<Rightarrow> npfloat" where
  "fdiv (Fin a) (Fin b) =
     (if b = 0 then (if a = 0 then NaN else if 0 < a then PInf else NInf) else Fin (a / b))"
| "fdiv NaN y = NaN"
| "fdiv x NaN = NaN"
| "fdiv (Fin a) y = Fin 0"
| "fdiv PInf (Fin b) = (if 0 \<le> b then PInf else NInf)"
| "fdiv NInf (Fin b) = (if 0 \<le> b then NInf else PInf)"
| "fdiv x y = NaN"

definition fsum :: "npfloat list \<Rightarrow> npfloat" where
  "fsum xs = foldl fadd (Fin 0) xs"

definition fmean :: "npfloat list \<Rightarrow> npfloat" where
  \<comment> \<open>the mean of no value is 0 / 0, that is NaN\<close>
  "fmean xs = fdiv (fsum xs) (Fin (real (length xs)))"

definition nanmean :: "npfloat list \<Rightarrow> npfloat" where
  "nanmean xs = fmean (filter (\<lambda>x. x \<noteq> NaN) xs)"

text \<open>
  An array is its shape and its elements in row-major order; \<open>ndim\<close> is the length of
  the shape. Every array numpy builds satisfies \<open>wf_array\<close>.
\<close>

record ndarray =
  shape :: "nat list"
  elems :: "npfloat list"

definition wf_array :: "ndarray \<Rightarrow> bool" where
  "wf_array a = (length (elems a) = prod_list (shape a))"

definition ndim :: "ndarray \<Rightarrow> nat" where
  "ndim a = length (shape a)"

datatype error =
    ConflictingStrategies
  | UnknownBackgroundMethod string
  | UnknownEdgeType string
  | StepLengthTooSmall
  | NoDarkShots
  | BackgroundNotFound
  | BadDimension
  | BroadcastError
  | IndexError
  | AxisError
  | KeyError
  | OSError
  | TypeError
  | ValueError
  | UnboundLocalError
  | FindEdgeError string

definition blocks :: "nat \<Rightarrow> nat \<Rightarrow> 'a list \<Rightarrow> 'a list list" where
  \<comment> \<open>the \<open>n\<close> sub-arrays of \<open>k\<close> elements along the first axis\<close>
  "blocks n k xs = map (\<lambda>i. take k (drop (i * k) xs)) [0..<n]"

definition mean_axis0 :: "ndarray \<Rightarrow> error + ndarray" where
  \<comment> \<open>\<^verbatim>\<open>a.mean(axis=0)\<close>\<close>
  "mean_axis0 a =
     (case shape a of
        [] \<Rightarrow> Inl AxisError
      | n # rest \<Rightarrow>
          let k = prod_list rest; rows = blocks n k (elems a)
          in Inr \<lparr>shape = rest, elems = map (\<lambda>j. fmean (map (\<lambda>r. r ! j) rows)) [0..<k]\<rparr>)"

definition mask_select :: "'a list \<Rightarrow> bool list \<Rightarrow> 'a list" where
  "mask_select xs m = map fst (filter snd (zip xs m))"

definition take_mask :: "ndarray \<Rightarrow> bool list \<Rightarrow> error + ndarray" where
  \<comment> \<open>\<^verbatim>\<open>a[mask]\<close> for a one-dimensional boolean mask\<close>
  "take_mask a m =
     (case shape a of
        [] \<Rightarrow> Inl IndexError
      | n # rest \<Rightarrow>
          if length m \<noteq> n then Inl IndexError
          else let sel = mask_select (blocks n (prod_list rest) (elems a)) m
               in Inr \<lparr>shape = length sel # rest, elems = concat sel\<rparr>)"

fun bcompat :: "nat list \<Rightarrow> nat list \<Rightarrow> bool" where
  \<comment> \<open>can the second shape be broadcast to the first (both given last axis first)\<close>
  "bcompat ds [] = True"
| "bcompat [] (b # bs) = False"
| "bcompat (d # ds) (b # bs) = ((b = d \<or> b = 1) \<and> bcompat ds bs)"

fun bidx :: "nat list \<Rightarrow> nat list \<Rightarrow> nat \<Rightarrow> nat" where
  \<comment> \<open>the flat index in the broadcast operand that meets flat index \<open>i\<close> of the target\<close>
  "bidx (d # ds) (b # bs) i = (if b = 1 then 0 else i mod d) + b * bidx ds bs (i div d)"
| "bidx ds bs i = 0"

definition inplace :: "(npfloat \<Rightarrow> npfloat \<Rightarrow> npfloat) \<Rightarrow> ndarray \<Rightarrow> ndarray \<Rightarrow> error + ndarray" where
  \<comment> \<open>\<^verbatim>\<open>a op= b\<close>: the result is written into \<open>a\<close>, whose shape cannot change\<close>
  "inplace f a b =
     (if bcompat (rev (shape a)) (rev (shape b))
      then Inr (a\<lparr>elems :=
             map (\<lambda>i. f (elems a ! i) (elems b ! bidx (rev (shape a)) (rev (shape b)) i))
               [0..<length (elems a)]\<rparr>)
      else Inl BroadcastError)"

definition inplace_scalar :: "(npfloat \<Rightarrow> npfloat \<Rightarrow> npfloat) \<Rightarrow> ndarray \<Rightarrow> npfloat \<Rightarrow> ndarray" where
  "inplace_scalar f a c = a\<lparr>elems := map (\<lambda>x. f x c) (elems a)\<rparr>"

section \<open>The encoder\<close>

text \<open>
  The object of class \<^verbatim>\<open>SpatialEncoder\<close>. The background reference and the
  conversion coefficient are \<open>None\<close> until they are calibrated.
\<close>

record encoder =
  channel :: string
  roi :: "int option \<times> int option"
  background_method :: string
  step_length :: int
  refinement :: int
  events_channel :: "string option"
  dark_shot_event :: int
  dark_shot_filter :: "(nat list \<Rightarrow> bool list) option"
  background :: "ndarray option"
  pix_per_fs :: "npfloat option"
  edge_type :: string

definition background_methods :: "string list" where
  "background_methods = [''div'', ''sub'']"

definition edge_types :: "string list" where
  "edge_types = [''falling'', ''rising'']"

definition truthy_channel :: "string option \<Rightarrow> bool" where
  \<comment> \<open>Python's truth value of a channel name: \<open>None\<close> and the empty string are false\<close>
  "truthy_channel c = (case c of None \<Rightarrow> False | Some n \<Rightarrow> n \<noteq> [])"

definition truthy_filter :: "(nat list \<Rightarrow> bool list) option \<Rightarrow> bool" where
  "truthy_filter f = (case f of None \<Rightarrow> False | Some g \<Rightarrow> True)"

definition has_strategy :: "encoder \<Rightarrow> bool" where
  \<comment> \<open>\<^verbatim>\<open>self.events_channel or self.dark_shot_filter\<close>\<close>
  "has_strategy s = (truthy_channel (events_channel s) \<or> truthy_filter (dark_shot_filter s))"

definition init ::
  "string \<Rightarrow> int option \<times> int option \<Rightarrow> string \<Rightarrow> int \<Rightarrow> string option \<Rightarrow> int \<Rightarrow>
   (nat list \<Rightarrow> bool list) option \<Rightarrow> int \<Rightarrow> string \<Rightarrow> error + encoder" where
  \<comment> \<open>\<^verbatim>\<open>SpatialEncoder.__init__\<close>; the three validated attributes go through their setters\<close>
  "init ch r bm sl ec dse dsf rf et =
     (if truthy_channel ec \<and> truthy_filter dsf then Inl ConflictingStrategies
      else if bm \<notin> set background_methods then Inl (UnknownBackgroundMethod bm)
      else if sl < 4 then Inl StepLengthTooSmall
      else if et \<notin> set edge_types then Inl (UnknownEdgeType et)
      else Inr \<lparr>channel = ch, roi = r, background_method = bm, step_length = sl,
                refinement = rf, events_channel = ec, dark_shot_event = dse,
                dark_shot_filter = dsf, background = None, pix_per_fs = None,
                edge_type = et\<rparr>)"

definition set_background_method :: "encoder \<Rightarrow> string \<Rightarrow> error + encoder" where
  "set_background_method s v =
     (if v \<notin> set background_methods then Inl (UnknownBackgroundMethod v)
      else Inr (s\<lparr>background_method := v\<rparr>))"

definition set_edge_type :: "encoder \<Rightarrow> string \<Rightarrow> error + encoder" where
  "set_edge_type s v =
     (if v \<notin> set edge_types then Inl (UnknownEdgeType v) else Inr (s\<lparr>edge_type := v\<rparr>))"

definition set_step_length :: "encoder \<Rightarrow> int \<Rightarrow> error + encoder" where
  "set_step_length s v = (if v < 4 then Inl StepLengthTooSmall else Inr (s\<lparr>step_length := v\<rparr>))"

text \<open>
  \<^verbatim>\<open>events_channel\<close> and \<^verbatim>\<open>dark_shot_filter\<close> are plain attributes (lines 52 and
  54 of the source; the class declares no property for them), so an assignment to one of
  them on an existing encoder stores the value and nothing else.
\<close>

definition set_events_channel :: "encoder \<Rightarrow> string option \<Rightarrow> error + encoder" where
  "set_events_channel s v = Inr (s\<lparr>events_channel := v\<rparr>)"

definition set_dark_shot_filter ::
  "encoder \<Rightarrow> (nat list \<Rightarrow> bool list) option \<Rightarrow> error + encoder" where
  "set_dark_shot_filter s v = Inr (s\<lparr>dark_shot_filter := v\<rparr>)"

fun config_error :: "error \<Rightarrow> bool" where
  \<comment> \<open>the four errors that the constructor and the setters raise\<close>
  "config_error ConflictingStrategies = True"
| "config_error (UnknownBackgroundMethod v) = True"
| "config_error (UnknownEdgeType v) = True"
| "config_error StepLengthTooSmall = True"
| "config_error e = False"

definition store_mean :: "encoder \<Rightarrow> ndarray \<Rightarrow> error + encoder" where
  \<comment> \<open>\<^verbatim>\<open>self._background = data.mean(axis=0)\<close>\<close>
  "store_mean s d =
     (case mean_axis0 d of Inl e \<Rightarrow> Inl e | Inr b \<Rightarrow> Inr (s\<lparr>background := Some b\<rparr>))"

definition calibrate_background :: "encoder \<Rightarrow> ndarray \<Rightarrow> bool list option \<Rightarrow> error + encoder" where
  "calibrate_background s d dark =
     (case dark of
        None \<Rightarrow> store_mean s d
      | Some m \<Rightarrow>
          if True \<in> set m
          then (case take_mask d m of Inl e \<Rightarrow> Inl e | Inr d' \<Rightarrow> store_mean s d')
          else Inl NoDarkShots)"

text \<open>
  \<^verbatim>\<open>find_edge\<close> is imported from \<^verbatim>\<open>photodiag/utils\<close>, which is not part of
  the sources at hand: it is a parameter of the model, a function of its four arguments
  that returns the edge positions and whatever else it puts into its dictionary, or raises.
\<close>

record edge_result =
  edge_pos :: "npfloat list"
  xcorr_data :: "(string \<times> ndarray) list"

record proc_output = edge_result +
  raw_input :: "ndarray option"

type_synonym find_edge_fn = "ndarray \<Rightarrow> int \<Rightarrow> string \<Rightarrow> int \<Rightarrow> error + edge_result"

definition remove_background :: "encoder \<Rightarrow> ndarray \<Rightarrow> ndarray \<Rightarrow> error + ndarray" where
  \<comment> \<open>lines 169 to 174: the operators are numpy's in-place ones\<close>
  "remove_background s d bg =
     (if background_method s = ''sub'' then inplace fsub d bg
      else if background_method s = ''div''
      then (case inplace fdiv d bg of
              Inl e \<Rightarrow> Inl e
            | Inr d' \<Rightarrow> Inr (inplace_scalar fsub d' (Fin 1)))
      else Inr d)"

definition corrected :: "string \<Rightarrow> npfloat \<Rightarrow> npfloat \<Rightarrow> npfloat" where
  \<comment> \<open>what lines 169 to 174 leave in a cell that held \<open>x\<close>, for the reference value \<open>b\<close>\<close>
  "corrected bm x b =
     (if bm = ''sub'' then fsub x b else if bm = ''div'' then fsub (fdiv x b) (Fin 1) else x)"

text \<open>
  \<^verbatim>\<open>process\<close> works on the array object it is given: \<^verbatim>\<open>data[np.newaxis, :]\<close> is
  a view on the same memory, and \<^verbatim>\<open>-=\<close> and \<^verbatim>\<open>/=\<close> write into it. The model
  returns, next to the output dictionary, the contents of the caller's array after the
  call. The entry \<^verbatim>\<open>raw_input\<close> is that same array (as the view of one row more
  dimension when the input had one dimension), recorded as it is when \<^verbatim>\<open>process\<close>
  returns. The stored reference is a private attribute that no method hands out, so the
  array given to \<^verbatim>\<open>process\<close> is taken not to be the reference itself.
\<close>

definition process ::
  "find_edge_fn \<Rightarrow> encoder \<Rightarrow> ndarray \<Rightarrow> bool \<Rightarrow> error + proc_output \<times> ndarray" where
  "process fe s d debug =
     (case background s of
        None \<Rightarrow> Inl BackgroundNotFound
      | Some bg \<Rightarrow>
          if 2 < ndim d then Inl BadDimension
          else
            let v = (if ndim d = 1 then d\<lparr>shape := 1 # shape d\<rparr> else d) in
            (case remove_background s v bg of
               Inl e \<Rightarrow> Inl e
             | Inr c \<Rightarrow>
                 (case fe c (step_length s) (edge_type s) (refinement s) of
                    Inl e \<Rightarrow> Inl e
                  | Inr r \<Rightarrow>
                      Inr (\<lparr>edge_pos = edge_pos r, xcorr_data = xcorr_data r,
                            raw_input = (if debug then Some c else None)\<rparr>,
                           d\<lparr>elems := elems c\<rparr>))))"

section \<open>Reading a recording\<close>

text \<open>
  What h5py returns is the environment of the model: opening a file, looking a group up
  and reading a selection of a dataset are functions given with the file, each of which can
  raise. What \<^verbatim>\<open>_read_bsread_file\<close> computes from these values with numpy is written
  out.
\<close>

datatype row_index = Positions "nat list" | Mask "bool list"

record h5group =
  grp_pulse_id :: "nat list"
  grp_column :: "nat list \<Rightarrow> int \<Rightarrow> error + int list"
  grp_images :: "row_index \<Rightarrow> int option \<times> int option \<Rightarrow> error + ndarray"

record h5file =
  has_data_group :: bool
  h5_group :: "string \<Rightarrow> error + h5group"

record eco_scan =
  scan_readbacks :: "real list list"
  scan_files :: "string list list"

record files =
  h5_open :: "string \<Rightarrow> error + h5file"
  eco_open :: "string \<Rightarrow> error + eco_scan"

definition mean_axis1 :: "ndarray \<Rightarrow> error + ndarray" where
  \<comment> \<open>\<^verbatim>\<open>a.mean(axis=1)\<close>\<close>
  "mean_axis1 a =
     (case shape a of
        n # h # rest \<Rightarrow>
          let k = prod_list rest
          in Inr \<lparr>shape = n # rest,
                  elems = concat (map (\<lambda>blk. map (\<lambda>j. fmean (map (\<lambda>r. r ! j) (blocks h k blk))) [0..<k])
                                      (blocks n (h * k) (elems a)))\<rparr>
      | _ \<Rightarrow> Inl AxisError)"

definition np_take :: "'a list \<Rightarrow> row_index \<Rightarrow> error + 'a list" where
  \<comment> \<open>\<^verbatim>\<open>xs[index]\<close> for an array of positions or a boolean mask\<close>
  "np_take xs ix =
     (case ix of
        Positions ps \<Rightarrow>
          if list_all (\<lambda>i. i < length xs) ps then Inr (map (\<lambda>i. xs ! i) ps) else Inl IndexError
      | Mask m \<Rightarrow> if length m = length xs then Inr (mask_select xs m) else Inl IndexError)"

definition first_index :: "'a list \<Rightarrow> 'a \<Rightarrow> nat" where
  "first_index xs x = length (takeWhile (\<lambda>y. y \<noteq> x) xs)"

definition intersect1d :: "nat list \<Rightarrow> nat list \<Rightarrow> nat list \<times> nat list \<times> nat list" where
  \<comment> \<open>\<^verbatim>\<open>np.intersect1d(a, b, return_indices=True)\<close>: the sorted common values and where
      each occurs first in \<open>a\<close> and in \<open>b\<close>\<close>
  "intersect1d a b =
     (let common = filter (\<lambda>x. x \<in> set b) (remdups (sort a))
      in (common, map (first_index a) common, map (first_index b) common))"

definition path_of :: "h5file \<Rightarrow> string \<Rightarrow> string" where
  "path_of h c = (if has_data_group h then ''/data/'' @ c else ''/'' @ c)"

definition select_shots ::
  "encoder \<Rightarrow> h5file \<Rightarrow> nat list \<Rightarrow> error + row_index \<times> bool list option" where
  \<comment> \<open>lines 259 to 288: which shots are kept, and which of those are dark\<close>
  "select_shots s h pulse =
     (if truthy_channel (events_channel s) then
        (case h5_group h (path_of h (the (events_channel s))) of
           Inl e \<Rightarrow> Inl e
         | Inr eg \<Rightarrow>
             (case intersect1d pulse (grp_pulse_id eg) of
                (common, ix, eix) \<Rightarrow>
                  let nonzero = map (\<lambda>p. p \<noteq> 0) common;
                      ix' = (if 0 \<in> set common then mask_select ix nonzero else ix);
                      eix' = (if 0 \<in> set common then mask_select eix nonzero else eix)
                  in (case grp_column eg eix' (dark_shot_event s) of
                        Inl e \<Rightarrow> Inl e
                      | Inr flags \<Rightarrow> Inr (Positions ix', Some (map (\<lambda>v. v \<noteq> 0) flags)))))
      else
        (case dark_shot_filter s of
           Some f \<Rightarrow>
             (case np_take (f pulse) (Mask (map (\<lambda>p. p \<noteq> 0) pulse)) of
                Inl e \<Rightarrow> Inl e
              | Inr dark \<Rightarrow> Inr (Mask (map (\<lambda>p. p \<noteq> 0) pulse), Some dark))
         | None \<Rightarrow> Inr (Mask (map (\<lambda>p. p \<noteq> 0) pulse), None)))"

definition read_bsread_file ::
  "files \<Rightarrow> encoder \<Rightarrow> string \<Rightarrow> bool \<Rightarrow>
   error + ndarray \<times> nat list \<times> bool list option \<times> ndarray option" where
  "read_bsread_file env s path return_images =
     (case h5_open env path of
        Inl e \<Rightarrow> Inl e
      | Inr h \<Rightarrow>
          (case h5_group h (path_of h (channel s)) of
             Inl e \<Rightarrow> Inl e
           | Inr g \<Rightarrow>
               (case select_shots s h (grp_pulse_id g) of
                  Inl e \<Rightarrow> Inl e
                | Inr (ix, dark) \<Rightarrow>
                    (case np_take (grp_pulse_id g) ix of
                       Inl e \<Rightarrow> Inl e
                     | Inr pulse \<Rightarrow>
                         (case grp_images g ix (roi s) of
                            Inl e \<Rightarrow> Inl e
                          | Inr imgs \<Rightarrow>
                              (case mean_axis1 imgs of
                                 Inl e \<Rightarrow> Inl e
                               | Inr d \<Rightarrow>
                                   Inr (d, pulse, dark,
                                        if return_images then Some imgs else None)))))))"

definition read_eco_scan :: "files \<Rightarrow> string \<Rightarrow> error + real list \<times> string list" where
  \<comment> \<open>\<^verbatim>\<open>_read_eco_scan\<close>: the readbacks flattened and converted to femtoseconds, and
      the first file of every scan step\<close>
  "read_eco_scan env path =
     (case eco_open env path of
        Inl e \<Rightarrow> Inl e
      | Inr eco \<Rightarrow>
          if \<not> list_all (\<lambda>r. length r = length (hd (scan_readbacks eco))) (scan_readbacks eco)
          then Inl ValueError
          else if \<not> list_all (\<lambda>fs. fs \<noteq> []) (scan_files eco) then Inl IndexError
          else Inr (map (\<lambda>x. x * 10 ^ 15) (concat (scan_readbacks eco)),
                    map hd (scan_files eco)))"

section \<open>Processing a recording and a scan\<close>

record file_output = proc_output +
  pulse_id :: "nat list"
  is_dark :: "bool list option"
  images :: "ndarray option"

record scan_output = file_output +
  scan_pos_fs :: real

definition set_where :: "npfloat list \<Rightarrow> bool list \<Rightarrow> npfloat \<Rightarrow> error + npfloat list" where
  \<comment> \<open>\<^verbatim>\<open>xs[mask] = v\<close>\<close>
  "set_where xs m v =
     (if length m \<noteq> length xs then Inl IndexError
      else Inr (map (\<lambda>(x, b). if b then v else x) (zip xs m)))"

definition process_hdf5 ::
  "find_edge_fn \<Rightarrow> files \<Rightarrow> encoder \<Rightarrow> string \<Rightarrow> bool \<Rightarrow> error + file_output \<times> encoder" where
  \<comment> \<open>returns the output dictionary and the encoder as the call leaves it\<close>
  "process_hdf5 fe env s path debug =
     (case read_bsread_file env s path debug of
        Inl e \<Rightarrow> Inl e
      | Inr (d, pulse, dark, imgs) \<Rightarrow>
          (case (if has_strategy s then calibrate_background s d dark
                 else if background s = None then Inl BackgroundNotFound else Inr s) of
             Inl e \<Rightarrow> Inl e
           | Inr s' \<Rightarrow>
               (case process fe s' d debug of
                  Inl e \<Rightarrow> Inl e
                | Inr (out, d') \<Rightarrow>
                    (case (case dark of None \<Rightarrow> Inr (edge_pos out)
                                      | Some m \<Rightarrow> set_where (edge_pos out) m NaN) of
                       Inl e \<Rightarrow> Inl e
                     | Inr ep \<Rightarrow>
                         Inr (\<lparr>edge_pos = ep, xcorr_data = xcorr_data out,
                               raw_input = raw_input out, pulse_id = pulse, is_dark = dark,
                               images = imgs\<rparr>, s')))))"

text \<open>
  \<^verbatim>\<open>Pool.map\<close> of the standard library cuts its input into chunks, sends every chunk
  with a pickled copy of the function (here the bound method, so a copy of the encoder) to
  a worker, which maps the function over the chunk, and puts the chunks' results together in
  the order of the input. Within a chunk the copy of the encoder is the same object from
  one file to the next; the encoder of the caller is never touched. When several files
  fail, the exception that \<^verbatim>\<open>Pool.map\<close> raises is the one that arrives first; the model
  reports the one of the earliest file.
\<close>

function chunks :: "nat \<Rightarrow> 'a list \<Rightarrow> 'a list list" where
  "chunks c xs = (if c = 0 \<or> xs = [] then [] else take c xs # chunks c (drop c xs))"
  by pat_completeness auto
termination
  by (relation "measure (\<lambda>(c, xs). length xs)") auto

declare chunks.simps [simp del]

definition chunksize :: "nat \<Rightarrow> nat \<Rightarrow> nat" where
  \<comment> \<open>\<^verbatim>\<open>divmod(len(iterable), len(pool) * 4)\<close>, rounded up\<close>
  "chunksize len nproc =
     (if len mod (nproc * 4) \<noteq> 0 then len div (nproc * 4) + 1 else len div (nproc * 4))"

fun run_chunk :: "('s \<Rightarrow> 'a \<Rightarrow> error + 'b \<times> 's) \<Rightarrow> 's \<Rightarrow> 'a list \<Rightarrow> error + 'b list" where
  "run_chunk f s [] = Inr []"
| "run_chunk f s (x # xs) =
     (case f s x of
        Inl e \<Rightarrow> Inl e
      | Inr (y, s') \<Rightarrow> (case run_chunk f s' xs of Inl e \<Rightarrow> Inl e | Inr ys \<Rightarrow> Inr (y # ys)))"

fun gather :: "(error + 'b list) list \<Rightarrow> error + 'b list" where
  "gather [] = Inr []"
| "gather (r # rs) =
     (case r of
        Inl e \<Rightarrow> Inl e
      | Inr ys \<Rightarrow> (case gather rs of Inl e \<Rightarrow> Inl e | Inr zs \<Rightarrow> Inr (ys @ zs)))"

definition pool_map ::
  "nat \<Rightarrow> ('s \<Rightarrow> 'a \<Rightarrow> error + 'b \<times> 's) \<Rightarrow> 's \<Rightarrow> 'a list \<Rightarrow> error + 'b list" where
  "pool_map nproc f s xs =
     (if nproc < 1 then Inl ValueError
      else gather (map (run_chunk f s) (chunks (chunksize (length xs) nproc) xs)))"

definition with_pos :: "file_output \<Rightarrow> real \<Rightarrow> scan_output" where
  "with_pos out p =
     \<lparr>edge_pos = edge_pos out, xcorr_data = xcorr_data out, raw_input = raw_input out,
      pulse_id = pulse_id out, is_dark = is_dark out, images = images out, scan_pos_fs = p\<rparr>"

fun annotate :: "file_output list \<Rightarrow> real list \<Rightarrow> error + scan_output list" where
  \<comment> \<open>lines 234 and 235: \<^verbatim>\<open>scan_pos_fs[i]\<close> raises when there are fewer positions than
      outputs\<close>
  "annotate [] ps = Inr []"
| "annotate (out # outs) [] = Inl IndexError"
| "annotate (out # outs) (p # ps) =
     (case annotate outs ps of Inl e \<Rightarrow> Inl e | Inr r \<Rightarrow> Inr (with_pos out p # r))"

definition process_eco ::
  "find_edge_fn \<Rightarrow> files \<Rightarrow> encoder \<Rightarrow> string \<Rightarrow> nat \<Rightarrow> bool \<Rightarrow> error + scan_output list" where
  "process_eco fe env s path nproc debug =
     (if \<not> has_strategy s \<and> background s = None then Inl BackgroundNotFound
      else
        (case read_eco_scan env path of
           Inl e \<Rightarrow> Inl e
         | Inr (pos, bsread_files) \<Rightarrow>
             (case pool_map nproc (\<lambda>w f. process_hdf5 fe env w f debug) s bsread_files of
                Inl e \<Rightarrow> Inl e
              | Inr outs \<Rightarrow> annotate outs pos)))"

section \<open>The pixel to time calibration\<close>

text \<open>
  \<^verbatim>\<open>np.polyfit\<close> belongs to numpy. Its two checks of the sample vectors are written
  out (numpy raises a \<^verbatim>\<open>TypeError\<close> for an empty \<open>x\<close> and for \<open>x\<close> and \<open>y\<close> of
  different lengths). For finite samples the fit of degree one is written out in exact
  arithmetic: when two of the \<open>x\<close> differ it is the solution of the normal equations;
  when all \<open>x\<close> are the same value \<open>x0 \<noteq> 0\<close> (a single sample is such a case) the
  system has rank one, numpy warns (\<^verbatim>\<open>RankWarning\<close>) and returns the solution of least
  norm of the system with scaled columns, slope \<open>mean y / (2 x0)\<close> and intercept
  \<open>mean y / 2\<close>. What the LAPACK routine behind numpy does with samples that are not
  finite, or with a column of zeros, is a parameter of the model. The result is the pair of
  slope and intercept. \<^verbatim>\<open>np.empty\<close> returns memory as it finds it: its contents are a
  parameter too.
\<close>

type_synonym lstsq_fn = "real list \<Rightarrow> npfloat list \<Rightarrow> error + npfloat \<times> npfloat"

fun finite_values :: "npfloat list \<Rightarrow> real list option" where
  "finite_values [] = Some []"
| "finite_values (Fin v # ys) = map_option ((#) v) (finite_values ys)"
| "finite_values (y # ys) = None"

definition polyfit :: "lstsq_fn \<Rightarrow> real list \<Rightarrow> npfloat list \<Rightarrow> error + npfloat \<times> npfloat" where
  "polyfit lapack x y =
     (if x = [] then Inl TypeError
      else if length x \<noteq> length y then Inl TypeError
      else
        (case finite_values y of
           None \<Rightarrow> lapack x y
         | Some v \<Rightarrow>
             let n = real (length x); sx = sum_list x; sy = sum_list v;
                 sxx = sum_list (map (\<lambda>p. p * p) x);
                 sxy = sum_list (map (\<lambda>(p, q). p * q) (zip x v));
                 det = n * sxx - sx * sx
             in if det \<noteq> 0
                then (let a = (n * sxy - sx * sy) / det in Inr (Fin a, Fin ((sy - a * sx) / n)))
                else if hd x \<noteq> 0 then Inr (Fin (sy / n / (2 * hd x)), Fin (sy / n / 2))
                else lapack x y))"

definition sq_residuals :: "real \<Rightarrow> real \<Rightarrow> (real \<times> real) list \<Rightarrow> real" where
  \<comment> \<open>what a least-squares fit makes least: the sum over the samples \<open>(x, y)\<close> of the
      squares of \<open>y - (a x + b)\<close>\<close>
  "sq_residuals a b ps = sum_list (map (\<lambda>(x, y). (y - (a * x + b))\<^sup>2) ps)"

fun avg_wf_loop ::
  "find_edge_fn \<Rightarrow> files \<Rightarrow> encoder \<Rightarrow> string list \<Rightarrow> nat \<Rightarrow> npfloat list \<Rightarrow> error + npfloat list" where
  \<comment> \<open>lines 125 to 130: one edge position for the averaged waveform of every file\<close>
  "avg_wf_loop fe env s [] i acc = Inr acc"
| "avg_wf_loop fe env s (f # fs) i acc =
     (case read_bsread_file env s f False of
        Inl e \<Rightarrow> Inl e
      | Inr (d, pulse, dark, imgs) \<Rightarrow>
          (case mean_axis0 d of
             Inl e \<Rightarrow> Inl e
           | Inr w \<Rightarrow>
               (case process fe s w False of
                  Inl e \<Rightarrow> Inl e
                | Inr (out, w') \<Rightarrow>
                    if length acc \<le> i then Inl IndexError
                    else (case edge_pos out of
                            [v] \<Rightarrow> avg_wf_loop fe env s fs (Suc i) (acc[i := v])
                          | _ \<Rightarrow> Inl ValueError))))"

definition fit_samples ::
  "find_edge_fn \<Rightarrow> (nat \<Rightarrow> npfloat) \<Rightarrow> files \<Rightarrow> encoder \<Rightarrow> string \<Rightarrow> string \<Rightarrow> nat \<Rightarrow>
   error + real list \<times> npfloat list" where
  \<comment> \<open>lines 121 to 139: the scan positions and the edge positions that go into the fit\<close>
  "fit_samples fe junk env s path method nproc =
     (if method = ''avg_wf'' then
        (case read_eco_scan env path of
           Inl e \<Rightarrow> Inl e
         | Inr (pos, bsread_files) \<Rightarrow>
             (case avg_wf_loop fe env s bsread_files 0 (map junk [0..<length pos]) of
                Inl e \<Rightarrow> Inl e
              | Inr ep \<Rightarrow> Inr (pos, ep)))
      else if method = ''avg_edge'' then
        (case process_eco fe env s path nproc False of
           Inl e \<Rightarrow> Inl e
         | Inr results \<Rightarrow>
             Inr (map scan_pos_fs results, map (\<lambda>r. nanmean (edge_pos r)) results))
      else Inl UnboundLocalError)"

definition calibrate_time ::
  "find_edge_fn \<Rightarrow> lstsq_fn \<Rightarrow> (nat \<Rightarrow> npfloat) \<Rightarrow> files \<Rightarrow> encoder \<Rightarrow> string \<Rightarrow> string \<Rightarrow> nat \<Rightarrow>
   error + (real list \<times> npfloat list \<times> npfloat \<times> npfloat) \<times> encoder" where
  "calibrate_time fe lapack junk env s path method nproc =
     (if events_channel s = None \<and> dark_shot_filter s = None \<and> background s = None
      then Inl BackgroundNotFound
      else
        (case fit_samples fe junk env s path method nproc of
           Inl e \<Rightarrow> Inl e
         | Inr (pos, ep) \<Rightarrow>
             (case polyfit lapack pos ep of
                Inl e \<Rightarrow> Inl e
              | Inr c \<Rightarrow> Inr ((pos, ep, c), s\<lparr>pix_per_fs := Some (fst c)\<rparr>))))"

section \<open>A worked example\<close>

text \<open>
  The values the theorems below are tried on: a stand-in for \<^verbatim>\<open>find_edge\<close> that reports
  the first pixel of every row, two recordings of two shots each, in which the shot of pulse
  id 2 is dark, a scan over the two recordings, a scan of a single step and a scan of a
  single step with two readbacks, and an encoder
  that tells dark shots by their pulse id. The fits of the example never reach the LAPACK
  routine, for which a function that raises stands.
\<close>

definition first_pixel :: find_edge_fn where
  "first_pixel c len et rf =
     (case shape c of
        [n, k] \<Rightarrow>
          Inr \<lparr>edge_pos = map (\<lambda>r. case r of [] \<Rightarrow> NaN | x # xs \<Rightarrow> x) (blocks n k (elems c)),
               xcorr_data = []\<rparr>
      | _ \<Rightarrow> Inl (FindEdgeError ''shape''))"

definition camera_group :: "nat list \<Rightarrow> ndarray \<Rightarrow> h5group" where
  "camera_group pulse a =
     \<lparr>grp_pulse_id = pulse,
      grp_column = (\<lambda>rows col. Inl TypeError),
      grp_images = (\<lambda>ix r. case ix of Mask m \<Rightarrow> take_mask a m | Positions ps \<Rightarrow> Inl TypeError)\<rparr>"

definition recording :: "ndarray \<Rightarrow> h5file" where
  "recording a =
     \<lparr>has_data_group = False,
      h5_group = (\<lambda>p. if p = ''/cam'' then Inr (camera_group [1, 2] a) else Inl KeyError)\<rparr>"

definition images_a :: ndarray where
  "images_a = \<lparr>shape = [2, 1, 2], elems = [Fin 10, Fin 20, Fin 1, Fin 2]\<rparr>"

definition images_b :: ndarray where
  "images_b = \<lparr>shape = [2, 1, 2], elems = [Fin 30, Fin 60, Fin 3, Fin 6]\<rparr>"

definition example_files :: files where
  "example_files =
     \<lparr>h5_open = (\<lambda>p. if p = ''a'' then Inr (recording images_a)
                     else if p = ''b'' then Inr (recording images_b) else Inl OSError),
      eco_open = (\<lambda>p. if p = ''scan'' then Inr \<lparr>scan_readbacks = [[1], [2]],
                                                scan_files = [[''a''], [''b'']]\<rparr>
                      else if p = ''one'' then Inr \<lparr>scan_readbacks = [[1]],
                                                    scan_files = [[''a'']]\<rparr>
                      else if p = ''wide'' then Inr \<lparr>scan_readbacks = [[1, 2]],
                                                     scan_files = [[''a'']]\<rparr>
                      else Inl OSError)\<rparr>"

definition example_encoder :: encoder where
  "example_encoder =
     \<lparr>channel = ''cam'', roi = (None, None), background_method = ''sub'', step_length = 50,
      refinement = 1, events_channel = None, dark_shot_event = 21,
      dark_shot_filter = Some (map (\<lambda>p. p = 2)), background = None, pix_per_fs = None,
      edge_type = ''falling''\<rparr>"

definition waveforms_a :: ndarray where
  "waveforms_a = \<lparr>shape = [2, 2], elems = [Fin 10, Fin 20, Fin 1, Fin 2]\<rparr>"

definition reference_a :: ndarray where
  "reference_a = \<lparr>shape = [2], elems = [Fin 1, Fin 2]\<rparr>"

definition calibrated_encoder :: encoder where
  "calibrated_encoder = example_encoder\<lparr>background := Some reference_a\<rparr>"

definition output_a :: file_output where
  "output_a = \<lparr>edge_pos = [Fin 9, NaN], xcorr_data = [], raw_input = None, pulse_id = [1, 2],
     is_dark = Some [False, True], images = None\<rparr>"

definition output_b :: file_output where
  "output_b = \<lparr>edge_pos = [Fin 27, NaN], xcorr_data = [], raw_input = None, pulse_id = [1, 2],
     is_dark = Some [False, True], images = None\<rparr>"

definition lapack_unreached :: lstsq_fn where
  "lapack_unreached xs ys = Inl ValueError"

section \<open>Properties\<close>

lemma nth_block:
  assumes "j < k" "i * k + j < length xs"
  shows "take k (drop (i * k) xs) ! j = xs ! (i * k + j)"
  using assms by simp

lemma mask_select_map_upt:
  "length m = n \<Longrightarrow> mask_select (map f [0..<n]) m = map f (filter (\<lambda>i. m ! i) [0..<n])"
proof (induction m arbitrary: n rule: rev_induct)
  case Nil
  then show ?case by (simp add: mask_select_def)
next
  case (snoc b m)
  then obtain n' where n: "n = Suc n'" and len: "length m = n'" by (cases n) auto
  have "mask_select (map f [0..<n']) m = map f (filter (\<lambda>i. m ! i) [0..<n'])"
    using snoc.IH[OF len] .
  moreover have "filter (\<lambda>i. (m @ [b]) ! i) [0..<n'] = filter (\<lambda>i. m ! i) [0..<n']"
    using len by (auto intro!: filter_cong simp: nth_append)
  ultimately show ?case
    using len by (simp add: n mask_select_def nth_append)
qed

lemma blocks_concat:
  "\<forall>r \<in> set rs. length r = k \<Longrightarrow> blocks (length rs) k (concat rs) = rs"
proof (induction rs rule: rev_induct)
  case Nil
  then show ?case by (simp add: blocks_def)
next
  case (snoc r rs)
  have len: "length (concat rs) = length rs * k"
    using snoc.prems by (induction rs) auto
  have IH: "blocks (length rs) k (concat rs) = rs"
    using snoc by simp
  have "map (\<lambda>i. take k (drop (i * k) (concat rs @ r))) [0..<length rs]
      = map (\<lambda>i. take k (drop (i * k) (concat rs))) [0..<length rs]"
  proof (rule map_cong[OF refl])
    fix i assume "i \<in> set [0..<length rs]"
    then have "i < length rs" by simp
    then have "Suc i * k \<le> length rs * k" by (simp add: Suc_leI mult_le_mono1 del: mult_Suc)
    then have "i * k + k \<le> length (concat rs)" using len by simp
    then show "take k (drop (i * k) (concat rs @ r)) = take k (drop (i * k) (concat rs))"
      by simp
  qed
  then have first: "map (\<lambda>i. take k (drop (i * k) (concat rs @ r))) [0..<length rs] = rs"
    using IH by (simp only: blocks_def)
  have last: "take k (drop (length rs * k) (concat rs @ r)) = r"
    using snoc.prems len by simp
  have "blocks (length (rs @ [r])) k (concat (rs @ [r]))
      = map (\<lambda>i. take k (drop (i * k) (concat rs @ r))) [0..<length rs]
        @ [take k (drop (length rs * k) (concat rs @ r))]"
    by (simp add: blocks_def)
  then show ?case
    by (simp only: first last)
qed

lemma calibrate_background_dark_mean:
  assumes sh: "shape d = [n, m]" and wf: "wf_array d"
    and len: "length dk = n" and any: "True \<in> set dk"
  shows "\<exists>bg. calibrate_background s d (Some dk) = Inr (s\<lparr>background := Some bg\<rparr>)
           \<and> shape bg = [m] \<and> length (elems bg) = m
           \<and> (\<forall>j<m. elems bg ! j =
                 fmean (map (\<lambda>i. elems d ! (i * m + j)) (filter (\<lambda>i. dk ! i) [0..<n])))"
proof -
  let ?xs = "elems d"
  let ?dark = "filter (\<lambda>i. dk ! i) [0..<n]"
  let ?sel = "mask_select (blocks n m ?xs) dk"
  have lenxs: "length ?xs = n * m"
    using wf sh by (simp add: wf_array_def)
  have sel: "?sel = map (\<lambda>i. take m (drop (i * m) ?xs)) ?dark"
    using len by (simp add: blocks_def mask_select_map_upt)
  have inb: "i * m + j < length ?xs" if "i < n" "j < m" for i j
  proof -
    have "i * m + j < Suc i * m" using that by simp
    also have "\<dots> \<le> n * m" using that by (simp add: Suc_leI mult_le_mono1 del: mult_Suc)
    finally show ?thesis using lenxs by simp
  qed
  have rowlen: "\<forall>r \<in> set ?sel. length r = m"
  proof
    fix r assume "r \<in> set ?sel"
    then obtain i where i: "i < n" and r: "r = take m (drop (i * m) ?xs)"
      unfolding sel by auto
    have "Suc i * m \<le> n * m" using i by (simp add: Suc_leI mult_le_mono1 del: mult_Suc)
    then show "length r = m" using r lenxs by simp
  qed
  have tm: "take_mask d dk = Inr \<lparr>shape = [length ?sel, m], elems = concat ?sel\<rparr>"
    using sh len by (simp add: take_mask_def Let_def)
  have bl: "blocks (length ?sel) m (concat ?sel) = ?sel"
    using rowlen by (rule blocks_concat)
  define bg where "bg = \<lparr>shape = [m], elems = map (\<lambda>j. fmean (map (\<lambda>r. r ! j) ?sel)) [0..<m]\<rparr>"
  have ma: "mean_axis0 \<lparr>shape = [length ?sel, m], elems = concat ?sel\<rparr> = Inr bg"
    using bl by (simp add: mean_axis0_def Let_def bg_def)
  have cb: "calibrate_background s d (Some dk) = Inr (s\<lparr>background := Some bg\<rparr>)"
    using any tm ma by (simp add: calibrate_background_def store_mean_def)
  have col: "elems bg ! j = fmean (map (\<lambda>i. ?xs ! (i * m + j)) ?dark)" if j: "j < m" for j
  proof -
    have "map (\<lambda>r. r ! j) ?sel = map (\<lambda>i. take m (drop (i * m) ?xs) ! j) ?dark"
      unfolding sel by (simp add: comp_def)
    also have "\<dots> = map (\<lambda>i. ?xs ! (i * m + j)) ?dark"
    proof (rule map_cong[OF refl])
      fix i assume "i \<in> set ?dark"
      then have "i < n" by simp
      then show "take m (drop (i * m) ?xs) ! j = ?xs ! (i * m + j)"
        using j inb by (intro nth_block) auto
    qed
    finally show ?thesis using j by (simp add: bg_def)
  qed
  show ?thesis
    using cb col by (intro exI[of _ bg]) (simp add: bg_def)
qed

lemma flat_index_less:
  assumes "i < n" "j < m"
  shows "i * m + j < n * (m::nat)"
proof -
  have "i * m + j < Suc i * m" using assms by simp
  also have "\<dots> \<le> n * m" using assms by (simp add: Suc_leI mult_le_mono1 del: mult_Suc)
  finally show ?thesis .
qed

lemma inplace_rows:
  assumes "shape a = [n, m]" "shape b = [m]"
  shows "inplace f a b =
     Inr (a\<lparr>elems := map (\<lambda>k. f (elems a ! k) (elems b ! (k mod m))) [0..<length (elems a)]\<rparr>)"
  using assms by (auto simp: inplace_def)

lemma remove_background_rows:
  assumes "shape d = [n, m]" "shape bg = [m]"
  shows "remove_background s d bg =
     Inr (d\<lparr>elems := map (\<lambda>k. corrected (background_method s) (elems d ! k) (elems bg ! (k mod m)))
                       [0..<length (elems d)]\<rparr>)"
  using assms
  by (simp add: remove_background_def inplace_rows[OF assms] inplace_scalar_def corrected_def comp_def map_nth)

lemma process_rows:
  assumes sh: "shape d = [n, m]" and bg: "background s = Some bg" and shb: "shape bg = [m]"
  defines "c \<equiv> d\<lparr>elems := map (\<lambda>k. corrected (background_method s) (elems d ! k) (elems bg ! (k mod m)))
                       [0..<length (elems d)]\<rparr>"
  shows "process fe s d dbg =
     (case fe c (step_length s) (edge_type s) (refinement s) of
        Inl e \<Rightarrow> Inl e
      | Inr r \<Rightarrow> Inr (\<lparr>edge_pos = edge_pos r, xcorr_data = xcorr_data r,
                       raw_input = (if dbg then Some c else None)\<rparr>, c))"
proof -
  have rb: "remove_background s d bg = Inr c"
    unfolding c_def by (rule remove_background_rows[OF sh shb])
  have "d\<lparr>elems := elems c\<rparr> = c" by (simp add: c_def)
  then show ?thesis
    using sh bg rb by (simp add: process_def ndim_def split: sum.splits)
qed

text \<open>
  Claim C5. For a matrix of \<open>n\<close> rows of \<open>m\<close> pixels and a stored reference of \<open>m\<close>
  values, \<^verbatim>\<open>process\<close> hands to the edge detection the matrix in which every cell
  \<open>(i, j)\<close> is \<open>data - reference\<close> in the subtractive mode and \<open>data / reference - 1\<close>
  in the divisive mode, the reference taken at column \<open>j\<close> for every row.
\<close>
theorem background_removal_elementwise:
  assumes "shape d = [n, m]" and "wf_array d" and "background s = Some bg" and "shape bg = [m]"
  shows "\<exists>c. shape c = [n, m] \<and> length (elems c) = n * m
      \<and> (\<forall>i<n. \<forall>j<m. elems c ! (i * m + j) =
            (if background_method s = ''sub'' then fsub (elems d ! (i * m + j)) (elems bg ! j)
             else if background_method s = ''div''
             then fsub (fdiv (elems d ! (i * m + j)) (elems bg ! j)) (Fin 1)
             else elems d ! (i * m + j)))
      \<and> process fe s d dbg =
          (case fe c (step_length s) (edge_type s) (refinement s) of
             Inl e \<Rightarrow> Inl e
           | Inr r \<Rightarrow> Inr (\<lparr>edge_pos = edge_pos r, xcorr_data = xcorr_data r,
                            raw_input = (if dbg then Some c else None)\<rparr>, c))"
proof -
  let ?c = "d\<lparr>elems := map (\<lambda>k. corrected (background_method s) (elems d ! k) (elems bg ! (k mod m)))
                       [0..<length (elems d)]\<rparr>"
  have len: "length (elems d) = n * m"
    using assms(1,2) by (simp add: wf_array_def)
  have el: "elems ?c ! (i * m + j) = corrected (background_method s) (elems d ! (i * m + j)) (elems bg ! j)"
    if "i < n" "j < m" for i j
    using flat_index_less[OF that] that len by simp
  show ?thesis
  proof (intro exI[of _ ?c] conjI allI impI)
    show "shape ?c = [n, m]" using assms(1) by simp
    show "length (elems ?c) = n * m" using len by simp
    show "process fe s d dbg =
          (case fe ?c (step_length s) (edge_type s) (refinement s) of
             Inl e \<Rightarrow> Inl e
           | Inr r \<Rightarrow> Inr (\<lparr>edge_pos = edge_pos r, xcorr_data = xcorr_data r,
                            raw_input = (if dbg then Some ?c else None)\<rparr>, ?c))"
      by (rule process_rows[OF assms(1,3,4)])
  next
    fix i j assume "i < n" "j < m"
    then show "elems ?c ! (i * m + j) =
            (if background_method s = ''sub'' then fsub (elems d ! (i * m + j)) (elems bg ! j)
             else if background_method s = ''div''
             then fsub (fdiv (elems d ! (i * m + j)) (elems bg ! j)) (Fin 1)
             else elems d ! (i * m + j))"
      using el by (simp add: corrected_def)
  qed
qed

text \<open>
  Claim C8. \<^verbatim>\<open>process\<close> on a one-dimensional waveform and \<^verbatim>\<open>process\<close> on the same
  values as a matrix of one row give the same output (or the same error) and leave the same
  values in the array they were given.
\<close>
theorem process_1d_as_row:
  "map_sum id (apsnd elems) (process fe s \<lparr>shape = [n], elems = xs\<rparr> dbg)
   = map_sum id (apsnd elems) (process fe s \<lparr>shape = [1, n], elems = xs\<rparr> dbg)"
  by (simp add: process_def ndim_def split: option.splits sum.splits)

lemma read_dark_some:
  assumes "has_strategy s" "read_bsread_file env s path dbg = Inr (d, pulse, dk, im)"
  shows "dk \<noteq> None"
  using assms
  by (auto simp: read_bsread_file_def select_shots_def has_strategy_def truthy_filter_def Let_def
      split: sum.splits prod.splits option.splits if_splits)

lemma read_ignores_background:
  "read_bsread_file env (s\<lparr>background := b\<rparr>) path dbg = read_bsread_file env s path dbg"
  by (simp add: read_bsread_file_def select_shots_def
      cong: if_cong sum.case_cong option.case_cong prod.case_cong)

lemma calibrate_overwrites:
  "calibrate_background (s\<lparr>background := b\<rparr>) d dk = calibrate_background s d dk"
  by (simp add: calibrate_background_def store_mean_def split: option.splits sum.splits)

lemma calibrate_InrD:
  assumes "calibrate_background s d dk = Inr s'"
  shows "\<exists>bg. s' = s\<lparr>background := Some bg\<rparr>"
  using assms
  by (auto simp: calibrate_background_def store_mean_def split: option.splits sum.splits if_splits)

lemma process_hdf5_InrD:
  assumes "process_hdf5 fe env s path dbg = Inr (out, s')"
  shows "\<exists>d pulse dk im po d' ep.
           read_bsread_file env s path dbg = Inr (d, pulse, dk, im)
         \<and> (if has_strategy s then calibrate_background s d dk = Inr s'
             else background s \<noteq> None \<and> s' = s)
         \<and> process fe s' d dbg = Inr (po, d')
         \<and> (case dk of None \<Rightarrow> ep = edge_pos po | Some m \<Rightarrow> set_where (edge_pos po) m NaN = Inr ep)
         \<and> out = \<lparr>edge_pos = ep, xcorr_data = xcorr_data po, raw_input = raw_input po,
                   pulse_id = pulse, is_dark = dk, images = im\<rparr>"
  using assms
  by (auto simp: process_hdf5_def split: sum.splits prod.splits option.splits if_splits)

lemma process_hdf5_ignores_background:
  assumes "has_strategy s"
  shows "process_hdf5 fe env (s\<lparr>background := b\<rparr>) path dbg = process_hdf5 fe env s path dbg"
proof -
  have "has_strategy (s\<lparr>background := b\<rparr>)" using assms by (simp add: has_strategy_def)
  then show ?thesis
    using assms
    by (simp add: process_hdf5_def read_ignores_background calibrate_overwrites
        cong: sum.case_cong prod.case_cong)
qed

text \<open>
  Claim C2. When a dark-shot strategy is configured (an events channel or a predicate on
  pulse ids) and \<^verbatim>\<open>process_hdf5\<close> returns, the output carries a dark mask as long as the
  edge positions, and the edge position of every shot that the mask flags is NaN.
\<close>
theorem dark_shots_have_no_edge:
  assumes "has_strategy s" and "process_hdf5 fe env s path dbg = Inr (out, s')"
  shows "\<exists>m. is_dark out = Some m \<and> length m = length (edge_pos out)
           \<and> (\<forall>i<length m. m ! i \<longrightarrow> edge_pos out ! i = NaN)"
proof -
  from process_hdf5_InrD[OF assms(2)] obtain d pulse dk im po d' ep where
    rd: "read_bsread_file env s path dbg = Inr (d, pulse, dk, im)"
    and "if has_strategy s then calibrate_background s d dk = Inr s'
         else background s \<noteq> None \<and> s' = s"
    and "process fe s' d dbg = Inr (po, d')"
    and ep: "case dk of None \<Rightarrow> ep = edge_pos po | Some m \<Rightarrow> set_where (edge_pos po) m NaN = Inr ep"
    and out: "out = \<lparr>edge_pos = ep, xcorr_data = xcorr_data po, raw_input = raw_input po,
                   pulse_id = pulse, is_dark = dk, images = im\<rparr>"
    by blast
  from read_dark_some[OF assms(1) rd] obtain m where dk: "dk = Some m" by auto
  from ep dk have sw: "set_where (edge_pos po) m NaN = Inr ep" by simp
  then have len: "length m = length (edge_pos po)"
    and epm: "ep = map (\<lambda>(x, b). if b then NaN else x) (zip (edge_pos po) m)"
    by (auto simp: set_where_def split: if_splits)
  have "ep ! i = NaN" if "i < length m" "m ! i" for i
    using that len by (simp add: epm)
  then show ?thesis
    using out dk len epm by simp
qed

text \<open>
  Claim C4, as amended. While a recording is processed with a dark-shot strategy
  configured, the reference is built from the shots flagged dark and from no other shot:
  it is the mean, column by column, over exactly the flagged rows of the waveforms of that
  recording. It is the shots that are not dark that take no part in the average.
\<close>
theorem reference_is_mean_of_dark_shots:
  assumes "has_strategy s"
    and "read_bsread_file env s path dbg = Inr (d, pulse, dk, im)"
    and "shape d = [n, m]" and "wf_array d"
    and "process_hdf5 fe env s path dbg = Inr (out, s')"
  shows "\<exists>flags bg. dk = Some flags \<and> length flags = n \<and> True \<in> set flags
           \<and> background s' = Some bg \<and> shape bg = [m]
           \<and> (\<forall>j<m. elems bg ! j =
                 fmean (map (\<lambda>i. elems d ! (i * m + j)) (filter (\<lambda>i. flags ! i) [0..<n])))"
proof -
  from read_dark_some[OF assms(1,2)] obtain flags where dk: "dk = Some flags" by auto
  from process_hdf5_InrD[OF assms(5)] assms(1,2) dk
  have cb: "calibrate_background s d (Some flags) = Inr s'" by auto
  then have any: "True \<in> set flags"
    by (auto simp: calibrate_background_def split: if_splits)
  from cb any assms(3) have len: "length flags = n"
    by (auto simp: calibrate_background_def take_mask_def split: if_splits sum.splits)
  from calibrate_background_dark_mean[OF assms(3,4) len any, of s] cb
  show ?thesis using dk len any by auto
qed


lemma worker_same:
  assumes "w = s \<or> (has_strategy s \<and> (\<exists>b. w = s\<lparr>background := b\<rparr>))"
  shows "process_hdf5 fe env w x dbg = process_hdf5 fe env s x dbg"
  using assms process_hdf5_ignores_background by auto

lemma worker_next:
  assumes "process_hdf5 fe env s x dbg = Inr (y, s')"
  shows "s' = s \<or> (has_strategy s \<and> (\<exists>b. s' = s\<lparr>background := b\<rparr>))"
proof (cases "has_strategy s")
  case True
  with process_hdf5_InrD[OF assms] obtain d dk where "calibrate_background s d dk = Inr s'"
    by auto
  from calibrate_InrD[OF this] True show ?thesis by blast
next
  case False
  with process_hdf5_InrD[OF assms] show ?thesis by auto
qed

lemma run_chunk_hdf5:
  assumes "w = s \<or> (has_strategy s \<and> (\<exists>b. w = s\<lparr>background := b\<rparr>))"
  shows "run_chunk (\<lambda>w f. process_hdf5 fe env w f dbg) w xs
       = run_chunk (\<lambda>w f. process_hdf5 fe env s f dbg) s xs"
  using assms
proof (induction xs arbitrary: w)
  case Nil
  then show ?case by simp
next
  case (Cons x xs)
  have same: "process_hdf5 fe env w x dbg = process_hdf5 fe env s x dbg"
    using Cons.prems by (rule worker_same)
  have fixed: "run_chunk (\<lambda>w f. process_hdf5 fe env s f dbg) v xs
             = run_chunk (\<lambda>w f. process_hdf5 fe env s f dbg) s xs" for v
    by (induction xs arbitrary: v) (auto split: sum.splits)
  show ?case
  proof (cases "process_hdf5 fe env s x dbg")
    case (Inl e)
    then show ?thesis using same by simp
  next
    case (Inr r)
    obtain y s1 where r: "r = (y, s1)" by (cases r)
    have next_ok: "s1 = s \<or> (has_strategy s \<and> (\<exists>b. s1 = s\<lparr>background := b\<rparr>))"
      using Inr r by (intro worker_next) simp
    show ?thesis
      using same Inr r Cons.IH[OF next_ok] fixed[of s1] by simp
  qed
qed

lemma run_chunk_append:
  "run_chunk (\<lambda>w. g) s (xs @ ys) =
     (case run_chunk (\<lambda>w. g) s xs of
        Inl e \<Rightarrow> Inl e
      | Inr us \<Rightarrow> (case run_chunk (\<lambda>w. g) s ys of Inl e \<Rightarrow> Inl e | Inr vs \<Rightarrow> Inr (us @ vs)))"
proof (induction xs arbitrary: s)
  case Nil
  then show ?case by (simp split: sum.splits)
next
  case (Cons x xs)
  have fixed: "run_chunk (\<lambda>w. g) v zs = run_chunk (\<lambda>w. g) s zs" for v zs
    by (induction zs arbitrary: v) (auto split: sum.splits)
  show ?case
  proof (cases "g x")
    case (Inl e)
    then show ?thesis by simp
  next
    case (Inr r)
    obtain y s1 where r: "r = (y, s1)" by (cases r)
    show ?thesis
      using Inr r Cons.IH[of s1] fixed[of s1] by (simp split: sum.splits)
  qed
qed

lemma gather_chunks:
  assumes "0 < c \<or> xs = []"
  shows "gather (map (run_chunk (\<lambda>w. g) s) (chunks c xs)) = run_chunk (\<lambda>w. g) s xs"
  using assms
proof (induction c xs rule: chunks.induct)
  case (1 c xs)
  show ?case
  proof (cases "xs = []")
    case True
    then show ?thesis by (simp add: chunks.simps[of c "[]"])
  next
    case False
    with "1.prems" have c: "0 < c" by simp
    have ch: "chunks c xs = take c xs # chunks c (drop c xs)"
      using False c by (subst chunks.simps) simp
    have IH: "gather (map (run_chunk (\<lambda>w. g) s) (chunks c (drop c xs)))
            = run_chunk (\<lambda>w. g) s (drop c xs)"
      using "1.IH" False c by simp
    have "run_chunk (\<lambda>w. g) s xs = run_chunk (\<lambda>w. g) s (take c xs @ drop c xs)" by simp
    also have "\<dots> = gather (map (run_chunk (\<lambda>w. g) s) (chunks c xs))"
      unfolding ch by (simp only: run_chunk_append list.map gather.simps IH)
    finally show ?thesis by simp
  qed
qed

lemma run_chunk_InrD:
  assumes "run_chunk (\<lambda>w. g) s xs = Inr ys"
  shows "length ys = length xs \<and> (\<forall>i<length xs. \<exists>s'. g (xs ! i) = Inr (ys ! i, s'))"
  using assms
proof (induction xs arbitrary: ys s)
  case Nil
  then show ?case by simp
next
  case (Cons x xs)
  from Cons.prems obtain y s1 zs where gx: "g x = Inr (y, s1)"
    and rest: "run_chunk (\<lambda>w. g) s1 xs = Inr zs" and ys: "ys = y # zs"
    by (auto split: sum.splits)
  from Cons.IH[OF rest] have len: "length zs = length xs"
    and nth: "\<And>i. i < length xs \<Longrightarrow> \<exists>s'. g (xs ! i) = Inr (zs ! i, s')" by auto
  have "\<exists>s'. g ((x # xs) ! i) = Inr (ys ! i, s')" if "i < length (x # xs)" for i
    using that gx nth ys by (cases i) auto
  then show ?case using len ys by simp
qed

lemma chunksize_pos:
  assumes "0 < len" "1 \<le> nproc"
  shows "0 < chunksize len nproc"
proof (cases "len mod (nproc * 4) = 0")
  case True
  have "len div (nproc * 4) \<noteq> 0"
  proof
    assume "len div (nproc * 4) = 0"
    moreover have "len = (nproc * 4) * (len div (nproc * 4)) + len mod (nproc * 4)" by simp
    ultimately have "len = 0" using True by simp
    then show False using assms(1) by simp
  qed
  then show ?thesis using True by (simp add: chunksize_def)
next
  case False
  then show ?thesis by (simp add: chunksize_def)
qed

lemma pool_map_hdf5:
  assumes "1 \<le> nproc"
  shows "pool_map nproc (\<lambda>w f. process_hdf5 fe env w f dbg) s xs
       = run_chunk (\<lambda>w f. process_hdf5 fe env s f dbg) s xs"
proof -
  have pos: "0 < chunksize (length xs) nproc \<or> xs = []"
    using chunksize_pos[OF _ assms, of "length xs"] by auto
  have "run_chunk (\<lambda>w f. process_hdf5 fe env w f dbg) s
      = run_chunk (\<lambda>w f. process_hdf5 fe env s f dbg) s"
    by (rule ext) (rule run_chunk_hdf5, simp)
  then show ?thesis
    using gather_chunks[OF pos, of "\<lambda>f. process_hdf5 fe env s f dbg" s] assms
    by (simp add: pool_map_def)
qed

lemma annotate_InrD:
  assumes "annotate outs pos = Inr r"
  shows "length outs \<le> length pos \<and> r = map (\<lambda>(out, p). with_pos out p) (zip outs pos)"
  using assms
  by (induction outs pos arbitrary: r rule: annotate.induct) (auto split: sum.splits)

lemma process_eco_InrD:
  assumes "process_eco fe env s path nproc dbg = Inr outs"
  shows "\<exists>pos fs fouts. read_eco_scan env path = Inr (pos, fs) \<and> 1 \<le> nproc
           \<and> pool_map nproc (\<lambda>w f. process_hdf5 fe env w f dbg) s fs = Inr fouts
           \<and> run_chunk (\<lambda>w f. process_hdf5 fe env s f dbg) s fs = Inr fouts
           \<and> length fouts = length fs \<and> length fs \<le> length pos
           \<and> outs = map (\<lambda>(out, p). with_pos out p) (zip fouts pos)"
proof -
  from assms obtain pos fs fouts where
    rd: "read_eco_scan env path = Inr (pos, fs)"
    and pm: "pool_map nproc (\<lambda>w f. process_hdf5 fe env w f dbg) s fs = Inr fouts"
    and an: "annotate fouts pos = Inr outs"
    by (auto simp: process_eco_def split: if_splits sum.splits)
  from pm have np: "1 \<le> nproc"
    by (auto simp: pool_map_def split: if_splits)
  from pm have rc: "run_chunk (\<lambda>w f. process_hdf5 fe env s f dbg) s fs = Inr fouts"
    by (simp add: pool_map_hdf5[OF np])
  from run_chunk_InrD[OF rc] have len: "length fouts = length fs" by simp
  from annotate_InrD[OF an] have "length fouts \<le> length pos"
    and "outs = map (\<lambda>(out, p). with_pos out p) (zip fouts pos)"
    by auto
  then show ?thesis using rd np pm rc len by auto
qed

text \<open>
  Claim C1. For every scan and every number of worker processes of at least one: when
  \<^verbatim>\<open>process_eco\<close> returns, its result has one element for every recording file of the
  scan, and the element at index \<open>i\<close> is the output of \<^verbatim>\<open>process_hdf5\<close> for the file at
  index \<open>i\<close> (on the encoder as \<^verbatim>\<open>process_eco\<close> was given it), entry by entry, with the
  scan position at index \<open>i\<close> as its \<^verbatim>\<open>scan_pos_fs\<close>. The result does not depend on the
  number of workers: every other number of workers returns the same list.
\<close>
theorem process_eco_order:
  assumes "1 \<le> nproc"
    and "read_eco_scan env path = Inr (pos, bsread_files)"
    and "process_eco fe env s path nproc dbg = Inr outs"
  shows "length outs = length bsread_files
     \<and> (\<forall>i<length bsread_files. i < length pos \<and> scan_pos_fs (outs ! i) = pos ! i \<and>
           (\<exists>out s'. process_hdf5 fe env s (bsread_files ! i) dbg = Inr (out, s')
                    \<and> outs ! i =
                        \<lparr>edge_pos = edge_pos out, xcorr_data = xcorr_data out,
                         raw_input = raw_input out, pulse_id = pulse_id out,
                         is_dark = is_dark out, images = images out,
                         scan_pos_fs = pos ! i\<rparr>))
     \<and> (\<forall>k\<ge>1. process_eco fe env s path k dbg = Inr outs)"
proof -
  from process_eco_InrD[OF assms(3)] assms(2) obtain fouts where
    pm: "pool_map nproc (\<lambda>w f. process_hdf5 fe env w f dbg) s bsread_files = Inr fouts"
    and rc: "run_chunk (\<lambda>w f. process_hdf5 fe env s f dbg) s bsread_files = Inr fouts"
    and len: "length fouts = length bsread_files"
    and le: "length bsread_files \<le> length pos"
    and outs: "outs = map (\<lambda>(out, p). with_pos out p) (zip fouts pos)"
    by auto
  from run_chunk_InrD[OF rc] have
    nth: "\<And>i. i < length bsread_files \<Longrightarrow>
                 \<exists>s'. process_hdf5 fe env s (bsread_files ! i) dbg = Inr (fouts ! i, s')"
    by auto
  have 1: "length outs = length bsread_files"
    using outs le len by simp
  have 2: "i < length pos \<and> scan_pos_fs (outs ! i) = pos ! i \<and>
           (\<exists>out s'. process_hdf5 fe env s (bsread_files ! i) dbg = Inr (out, s')
                    \<and> outs ! i =
                        \<lparr>edge_pos = edge_pos out, xcorr_data = xcorr_data out,
                         raw_input = raw_input out, pulse_id = pulse_id out,
                         is_dark = is_dark out, images = images out,
                         scan_pos_fs = pos ! i\<rparr>)"
    if i: "i < length bsread_files" for i
  proof -
    have oi: "outs ! i =
        \<lparr>edge_pos = edge_pos (fouts ! i), xcorr_data = xcorr_data (fouts ! i),
         raw_input = raw_input (fouts ! i), pulse_id = pulse_id (fouts ! i),
         is_dark = is_dark (fouts ! i), images = images (fouts ! i),
         scan_pos_fs = pos ! i\<rparr>"
      using outs i le len by (simp add: with_pos_def)
    then have "scan_pos_fs (outs ! i) = pos ! i" by simp
    then show ?thesis using nth[OF i] oi i le by auto
  qed
  have 3: "process_eco fe env s path k dbg = Inr outs" if "1 \<le> k" for k
  proof -
    from assms(3) have guard: "\<not> (\<not> has_strategy s \<and> background s = None)"
      by (auto simp: process_eco_def split: if_splits)
    have "pool_map k (\<lambda>w f. process_hdf5 fe env w f dbg) s bsread_files = Inr fouts"
      using pm by (simp only: pool_map_hdf5[OF that] pool_map_hdf5[OF assms(1)])
    moreover have "annotate fouts pos = Inr outs"
      using assms(2,3) pm by (simp add: process_eco_def split: if_splits)
    ultimately show ?thesis
      using guard assms(2) by (simp add: process_eco_def)
  qed
  show ?thesis using 1 2 3 by blast
qed

lemma mean_axis0_rows:
  assumes sh: "shape d = [n, m]" and wf: "wf_array d"
  shows "mean_axis0 d =
     Inr \<lparr>shape = [m], elems = map (\<lambda>j. fmean (map (\<lambda>i. elems d ! (i * m + j)) [0..<n])) [0..<m]\<rparr>"
proof -
  have len: "length (elems d) = n * m"
    using sh wf by (simp add: wf_array_def)
  have "map (\<lambda>r. r ! j) (blocks n m (elems d)) = map (\<lambda>i. elems d ! (i * m + j)) [0..<n]"
    if j: "j < m" for j
    unfolding blocks_def map_map comp_def
  proof (rule map_cong[OF refl])
    fix i assume "i \<in> set [0..<n]"
    then have "i * m + j < length (elems d)"
      using flat_index_less[of i n j m] j len by simp
    then show "take m (drop (i * m) (elems d)) ! j = elems d ! (i * m + j)"
      using j by (intro nth_block)
  qed
  then have "map (\<lambda>j. fmean (map (\<lambda>r. r ! j) (blocks n m (elems d)))) [0..<m]
           = map (\<lambda>j. fmean (map (\<lambda>i. elems d ! (i * m + j)) [0..<n])) [0..<m]"
    by (intro map_cong[OF refl]) simp
  then show ?thesis
    using sh by (simp add: mean_axis0_def Let_def)
qed

text \<open>
  Claim C3. For a matrix of \<open>n\<close> waveforms of \<open>m\<close> pixels and a mask of \<open>n\<close> flags:
  with a mask that flags a row, \<^verbatim>\<open>calibrate_background\<close> stores as reference, whatever
  was stored before, the mean over exactly the flagged rows, column by column; with a mask
  that flags no row it raises; without a mask it stores the mean over all rows.
\<close>
theorem calibrate_background_reference:
  assumes "shape d = [n, m]" and "wf_array d" and "length dk = n"
  shows "(True \<in> set dk \<longrightarrow>
            (\<exists>bg. calibrate_background s d (Some dk) = Inr (s\<lparr>background := Some bg\<rparr>)
                \<and> shape bg = [m] \<and> length (elems bg) = m
                \<and> (\<forall>j<m. elems bg ! j =
                      fmean (map (\<lambda>i. elems d ! (i * m + j)) (filter (\<lambda>i. dk ! i) [0..<n])))))
       \<and> (True \<notin> set dk \<longrightarrow> calibrate_background s d (Some dk) = Inl NoDarkShots)
       \<and> (\<exists>bg. calibrate_background s d None = Inr (s\<lparr>background := Some bg\<rparr>)
              \<and> shape bg = [m] \<and> length (elems bg) = m
              \<and> (\<forall>j<m. elems bg ! j = fmean (map (\<lambda>i. elems d ! (i * m + j)) [0..<n])))"
proof (intro conjI impI)
  assume "True \<in> set dk"
  then show "\<exists>bg. calibrate_background s d (Some dk) = Inr (s\<lparr>background := Some bg\<rparr>)
                \<and> shape bg = [m] \<and> length (elems bg) = m
                \<and> (\<forall>j<m. elems bg ! j =
                      fmean (map (\<lambda>i. elems d ! (i * m + j)) (filter (\<lambda>i. dk ! i) [0..<n])))"
    using calibrate_background_dark_mean[OF assms(1,2,3)] by simp
next
  assume "True \<notin> set dk"
  then show "calibrate_background s d (Some dk) = Inl NoDarkShots"
    by (simp add: calibrate_background_def)
next
  show "\<exists>bg. calibrate_background s d None = Inr (s\<lparr>background := Some bg\<rparr>)
              \<and> shape bg = [m] \<and> length (elems bg) = m
              \<and> (\<forall>j<m. elems bg ! j = fmean (map (\<lambda>i. elems d ! (i * m + j)) [0..<n]))"
    by (intro exI[of _ "\<lparr>shape = [m],
          elems = map (\<lambda>j. fmean (map (\<lambda>i. elems d ! (i * m + j)) [0..<n])) [0..<m]\<rparr>"])
       (simp add: calibrate_background_def store_mean_def mean_axis0_rows[OF assms(1,2)])
qed

text \<open>
  Claim C10. \<^verbatim>\<open>process\<close> writes into the matrix it is given: after the call the array
  holds the corrected values, the entry \<^verbatim>\<open>raw_input\<close> of the debug output is that
  corrected array, and a second call on the same array removes the background from the
  corrected values once more.
\<close>
theorem process_overwrites_input:
  assumes sh: "shape d = [n, m]" and wf: "wf_array d"
    and bg: "background s = Some bg" and shb: "shape bg = [m]"
    and p1: "process fe s d True = Inr (out, d')"
    and p2: "process fe s d' dbg = Inr (out2, d'')"
    and i: "i < n" and j: "j < m"
  shows "raw_input out = Some d' \<and> shape d' = [n, m]
     \<and> (background_method s = ''sub'' \<longrightarrow>
          elems d' ! (i * m + j) = fsub (elems d ! (i * m + j)) (elems bg ! j)
        \<and> elems d'' ! (i * m + j) = fsub (fsub (elems d ! (i * m + j)) (elems bg ! j)) (elems bg ! j))
     \<and> (background_method s = ''div'' \<longrightarrow>
          elems d' ! (i * m + j) = fsub (fdiv (elems d ! (i * m + j)) (elems bg ! j)) (Fin 1)
        \<and> elems d'' ! (i * m + j) =
            fsub (fdiv (fsub (fdiv (elems d ! (i * m + j)) (elems bg ! j)) (Fin 1)) (elems bg ! j)) (Fin 1))"
proof -
  let ?f = "\<lambda>a k. corrected (background_method s) (elems a ! k) (elems bg ! (k mod m))"
  let ?c = "\<lambda>a. a\<lparr>elems := map (?f a) [0..<length (elems a)]\<rparr>"
  have len: "length (elems d) = n * m"
    using sh wf by (simp add: wf_array_def)
  have k: "i * m + j < n * m" using flat_index_less[OF i j] .
  from p1 have d': "d' = ?c d" and raw: "raw_input out = Some d'"
    unfolding process_rows[OF sh bg shb] by (auto split: sum.splits)
  have sh': "shape d' = [n, m]" using d' sh by simp
  have len': "length (elems d') = n * m" using d' len by simp
  from p2 have d'': "d'' = ?c d'"
    unfolding process_rows[OF sh' bg shb] by (auto split: sum.splits)
  have e1: "elems d' ! (i * m + j)
          = corrected (background_method s) (elems d ! (i * m + j)) (elems bg ! j)"
    using d' k len j by simp
  have e2: "elems d'' ! (i * m + j)
          = corrected (background_method s) (elems d' ! (i * m + j)) (elems bg ! j)"
    using d'' k len' j by simp
  show ?thesis
    using raw sh' e1 e2 by (simp add: corrected_def)
qed

text \<open>
  Claim C7, as amended. The constructor raises exactly when both a non-empty events
  channel and a dark-shot predicate are given, or the background method is neither
  \<^verbatim>\<open>div\<close> nor \<^verbatim>\<open>sub\<close>, or the step length is below 4, or the edge type is neither
  \<^verbatim>\<open>falling\<close> nor \<^verbatim>\<open>rising\<close>; the setters of the background method, the edge type
  and the step length raise on the same values, and a step length of 4 is accepted. An
  assignment to the events channel or to the dark-shot predicate of an existing encoder is
  not checked. Neither \<^verbatim>\<open>calibrate_background\<close> nor \<^verbatim>\<open>process\<close> raises one of
  the configuration errors of its own.
\<close>
theorem configuration_checks:
  "(isl (init ch r bm sl ec dse dsf rf et) \<longleftrightarrow>
       truthy_channel ec \<and> truthy_filter dsf \<or> bm \<notin> {''div'', ''sub''} \<or> sl < 4
       \<or> et \<notin> {''falling'', ''rising''})
 \<and> (isl (set_background_method s bm) \<longleftrightarrow> bm \<notin> {''div'', ''sub''})
 \<and> (isl (set_edge_type s et) \<longleftrightarrow> et \<notin> {''falling'', ''rising''})
 \<and> (isl (set_step_length s sl) \<longleftrightarrow> sl < 4)
 \<and> set_step_length s 4 = Inr (s\<lparr>step_length := 4\<rparr>)
 \<and> set_events_channel s ec = Inr (s\<lparr>events_channel := ec\<rparr>)
 \<and> set_dark_shot_filter s dsf = Inr (s\<lparr>dark_shot_filter := dsf\<rparr>)
 \<and> (\<forall>e. config_error e \<longrightarrow> calibrate_background s d dk \<noteq> Inl e)
 \<and> (\<forall>e. config_error e \<and> process fe s d dbg = Inl e \<longrightarrow>
        (\<exists>c. fe c (step_length s) (edge_type s) (refinement s) = Inl e))"
proof -
  have 1: "isl (init ch r bm sl ec dse dsf rf et) \<longleftrightarrow>
       truthy_channel ec \<and> truthy_filter dsf \<or> bm \<notin> {''div'', ''sub''} \<or> sl < 4
       \<or> et \<notin> {''falling'', ''rising''}"
    by (simp add: init_def background_methods_def edge_types_def)
  have 2: "isl (set_background_method s bm) \<longleftrightarrow> bm \<notin> {''div'', ''sub''}"
    by (simp add: set_background_method_def background_methods_def)
  have 3: "isl (set_edge_type s et) \<longleftrightarrow> et \<notin> {''falling'', ''rising''}"
    by (simp add: set_edge_type_def edge_types_def)
  have 4: "isl (set_step_length s sl) \<longleftrightarrow> sl < 4"
    by (simp add: set_step_length_def)
  have 5: "set_step_length s 4 = Inr (s\<lparr>step_length := 4\<rparr>)"
    by (simp add: set_step_length_def)
  have 6: "calibrate_background s d dk \<noteq> Inl e" if "config_error e" for e
    using that
    by (cases e)
       (auto simp: calibrate_background_def store_mean_def mean_axis0_def take_mask_def Let_def
             split: option.splits sum.splits list.splits if_splits)
  have 7: "\<exists>c. fe c (step_length s) (edge_type s) (refinement s) = Inl e"
    if "config_error e \<and> process fe s d dbg = Inl e" for e
    using that
    by (cases e)
       (auto simp: process_def remove_background_def inplace_def Let_def
             split: option.splits sum.splits if_splits)
  show ?thesis
    using 1 2 3 4 5 6 7 by (simp add: set_events_channel_def set_dark_shot_filter_def)
qed

lemma avg_wf_loop_InrD:
  assumes "avg_wf_loop fe env s fs i acc = Inr ep"
  shows "length ep = length acc \<and> (fs \<noteq> [] \<longrightarrow> i + length fs \<le> length acc)
       \<and> (\<forall>k<length acc. k < i \<or> i + length fs \<le> k \<longrightarrow> ep ! k = acc ! k)"
  using assms
proof (induction fs arbitrary: i acc)
  case Nil
  then show ?case by simp
next
  case (Cons f fs)
  from Cons.prems obtain v where i: "i < length acc"
    and rest: "avg_wf_loop fe env s fs (Suc i) (acc[i := v]) = Inr ep"
    by (auto split: sum.splits prod.splits if_splits list.splits)
  from Cons.IH[OF rest] have len: "length ep = length acc"
    and room: "fs \<noteq> [] \<longrightarrow> Suc i + length fs \<le> length acc"
    and keep: "\<And>k. k < length acc \<Longrightarrow> k < Suc i \<or> Suc i + length fs \<le> k
                 \<Longrightarrow> ep ! k = acc[i := v] ! k"
    by auto
  have "i + length (f # fs) \<le> length acc"
    using i room by (cases "fs = []") auto
  moreover have "ep ! k = acc ! k"
    if "k < length acc" "k < i \<or> i + length (f # fs) \<le> k" for k
  proof -
    from that have "k \<noteq> i" "k < Suc i \<or> Suc i + length fs \<le> k" by auto
    with keep[OF that(1)] show ?thesis by simp
  qed
  ultimately show ?case using len by simp
qed

lemma map_fst_of_zip:
  "length xs = length ys \<Longrightarrow> map (\<lambda>(x, y). f x) (zip xs ys) = map f xs"
  by (induction xs ys rule: list_induct2) auto

lemma sq_residuals_expand:
  "sq_residuals a' b' ps =
     sq_residuals a b ps
     + 2 * (a - a') * sum_list (map (\<lambda>(x, y). (y - (a * x + b)) * x) ps)
     + 2 * (b - b') * sum_list (map (\<lambda>(x, y). y - (a * x + b)) ps)
     + sum_list (map (\<lambda>(x, y). ((a - a') * x + (b - b'))\<^sup>2) ps)"
  unfolding sq_residuals_def
  by (induction ps) (auto simp: power2_eq_square algebra_simps)

lemma residual_sum:
  "sum_list (map (\<lambda>(x, y). y - (a * x + b)) ps)
   = sum_list (map snd ps) - a * sum_list (map fst ps) - real (length ps) * b"
proof (induction ps)
  case Nil
  then show ?case by simp
next
  case (Cons p ps)
  obtain x y where p: "p = (x, y)" by (cases p)
  show ?case using Cons.IH by (simp add: p algebra_simps)
qed

lemma residual_moment:
  "sum_list (map (\<lambda>(x, y). (y - (a * x + b)) * x) ps)
   = sum_list (map (\<lambda>(x, y). x * y) ps) - (a::real) * sum_list (map (\<lambda>(x, y). x * x) ps)
     - b * sum_list (map fst ps)"
proof (induction ps)
  case Nil
  then show ?case by simp
next
  case (Cons p ps)
  obtain x y where p: "p = (x, y)" by (cases p)
  show ?case using Cons.IH by (simp add: p algebra_simps)
qed

lemma spread_sum:
  "sum_list (map (\<lambda>x. (x - m)\<^sup>2) xs)
   = sum_list (map (\<lambda>x. x * x) xs) - 2 * m * sum_list xs + real (length xs) * m\<^sup>2"
proof (induction xs)
  case Nil
  then show ?case by simp
next
  case (Cons x xs)
  show ?case using Cons.IH by (simp add: power2_eq_square algebra_simps)
qed

lemma no_spread_all_equal:
  assumes "xs \<noteq> []"
    and "real (length xs) * sum_list (map (\<lambda>x. x * x) xs) - sum_list xs * sum_list xs = 0"
  shows "\<forall>x \<in> set xs. x = hd xs"
proof -
  let ?n = "real (length xs)"
  define m where "m = sum_list xs / ?n"
  have n: "?n \<noteq> 0" using assms(1) by simp
  have sx: "sum_list xs = ?n * m" using n by (simp add: m_def)
  have "?n * sum_list (map (\<lambda>x. (x - m)\<^sup>2) xs)
      = ?n * sum_list (map (\<lambda>x. x * x) xs) - (?n * m) * (?n * m)"
    unfolding spread_sum[of m xs] sx by (simp add: power2_eq_square algebra_simps)
  also have "\<dots> = 0" using assms(2) sx by simp
  finally have zero: "sum_list (map (\<lambda>x. (x - m)\<^sup>2) xs) = 0" using n by simp
  have "\<forall>v \<in> set (map (\<lambda>x. (x - m)\<^sup>2) xs). v = 0"
  proof (rule iffD1[OF sum_list_nonneg_eq_0_iff zero])
    fix v assume "v \<in> set (map (\<lambda>x. (x - m)\<^sup>2) xs)"
    then show "0 \<le> v" by auto
  qed
  then have all: "\<forall>x \<in> set xs. x = m" by auto
  moreover have "hd xs \<in> set xs" using assms(1) by simp
  ultimately show ?thesis by metis
qed

lemma all_equal_sums:
  assumes "\<forall>p \<in> set xs. p = c" and "length xs = length vs"
  shows "sum_list xs = real (length xs) * c"
    and "sum_list (map (\<lambda>p. p * p) xs) = real (length xs) * (c * c)"
    and "sum_list (map (\<lambda>(p, q). p * q) (zip xs vs)) = c * sum_list vs"
proof -
  show "sum_list xs = real (length xs) * c"
    using assms(1) by (induction xs) (auto simp: algebra_simps)
  show "sum_list (map (\<lambda>p. p * p) xs) = real (length xs) * (c * c)"
    using assms(1) by (induction xs) (auto simp: algebra_simps)
  show "sum_list (map (\<lambda>(p, q). p * q) (zip xs vs)) = c * sum_list vs"
    using assms(2,1) by (induction xs vs rule: list_induct2) (auto simp: algebra_simps)
qed

lemma finite_values_length:
  "finite_values ys = Some vs \<Longrightarrow> length vs = length ys"
proof (induction ys arbitrary: vs)
  case Nil
  then show ?case by simp
next
  case (Cons y ys)
  then show ?case by (cases y) auto
qed

lemma polyfit_least_squares:
  assumes ne: "x \<noteq> []" and fin: "finite_values y = Some v" and len: "length x = length y"
    and reg: "hd x \<noteq> 0 \<or> (\<exists>p \<in> set x. p \<noteq> hd x)"
  shows "\<exists>a b. polyfit lapack x y = Inr (Fin a, Fin b)
           \<and> (\<forall>a' b'. sq_residuals a b (zip x v) \<le> sq_residuals a' b' (zip x v))
           \<and> ((\<exists>p \<in> set x. p \<noteq> hd x) \<longrightarrow>
                (\<forall>a' b'. sq_residuals a' b' (zip x v) \<le> sq_residuals a b (zip x v)
                          \<longrightarrow> a' = a \<and> b' = b))"
proof -
  let ?ps = "zip x v"
  let ?n = "real (length x)"
  let ?sx = "sum_list x" and ?sy = "sum_list v"
  let ?sxx = "sum_list (map (\<lambda>p. p * p) x)"
  let ?sxy = "sum_list (map (\<lambda>(p, q). p * q) ?ps)"
  let ?det = "?n * ?sxx - ?sx * ?sx"
  have lv: "length x = length v" using finite_values_length[OF fin] len by simp
  have n: "?n \<noteq> 0" using ne by simp
  have lps: "real (length ?ps) = ?n" using lv by simp
  have fst_ps: "sum_list (map fst ?ps) = ?sx" and snd_ps: "sum_list (map snd ?ps) = ?sy"
    using lv by simp_all
  have sq_ps: "sum_list (map (\<lambda>(p, q). p * p) ?ps) = ?sxx"
    using map_fst_of_zip[OF lv, of "\<lambda>p. p * p"] by simp
  have rs: "sum_list (map (\<lambda>(p, q). q - (a * p + b)) ?ps) = ?sy - a * ?sx - ?n * b" for a b
    using residual_sum[of a b ?ps] by (simp only: fst_ps snd_ps lps)
  have rm: "sum_list (map (\<lambda>(p, q). (q - (a * p + b)) * p) ?ps) = ?sxy - a * ?sxx - b * ?sx" for a b
    using residual_moment[of a b ?ps] by (simp only: fst_ps sq_ps)
  define a where "a = (if ?det \<noteq> 0 then (?n * ?sxy - ?sx * ?sy) / ?det else ?sy / ?n / (2 * hd x))"
  define b where "b = (if ?det \<noteq> 0 then (?sy - a * ?sx) / ?n else ?sy / ?n / 2)"
  have eq_all: "\<forall>p \<in> set x. p = hd x" if "?det = 0"
    using no_spread_all_equal[OF ne] that by simp
  have hd0: "hd x \<noteq> 0" if "?det = 0"
    using reg eq_all[OF that] by auto
  have fit: "polyfit lapack x y = Inr (Fin a, Fin b)"
    using ne len fin hd0 by (auto simp: polyfit_def Let_def a_def b_def)
  have ne1: "sum_list (map (\<lambda>(p, q). q - (a * p + b)) ?ps) = 0"
  proof (cases "?det = 0")
    case False
    then have "?n * b = ?sy - a * ?sx" using n by (simp add: b_def)
    then show ?thesis unfolding rs by simp
  next
    case True
    from all_equal_sums(1)[OF eq_all[OF True] lv] have sx: "?sx = ?n * hd x" .
    have "a * ?sx = ?sy / 2" using True n hd0[OF True] by (simp add: a_def sx)
    moreover have "?n * b = ?sy / 2" using True n by (simp add: b_def)
    ultimately show ?thesis unfolding rs by simp
  qed
  have ne2: "sum_list (map (\<lambda>(p, q). (q - (a * p + b)) * p) ?ps) = 0"
  proof (cases "?det = 0")
    case False
    then have nb: "?n * b = ?sy - a * ?sx" using n by (simp add: b_def)
    have ad: "a * ?det = ?n * ?sxy - ?sx * ?sy" using False by (simp add: a_def)
    have "?n * (?sxy - a * ?sxx - b * ?sx) = ?n * ?sxy - a * (?n * ?sxx) - (?n * b) * ?sx"
      by (simp add: algebra_simps)
    also have "\<dots> = (?n * ?sxy - ?sx * ?sy) - a * ?det"
      unfolding nb by (simp add: algebra_simps)
    also have "\<dots> = 0" using ad by simp
    finally have "?sxy - a * ?sxx - b * ?sx = 0" using n by simp
    then show ?thesis unfolding rm .
  next
    case True
    note sums = all_equal_sums[OF eq_all[OF True] lv]
    have h: "hd x \<noteq> 0" by (rule hd0[OF True])
    have e1: "a * (?n * (hd x * hd x)) = ?sy * hd x / 2"
      using True n h by (simp add: a_def)
    have e2: "b * (?n * hd x) = ?sy * hd x / 2"
      using True n by (simp add: b_def)
    have "hd x * ?sy - a * (?n * (hd x * hd x)) - b * (?n * hd x)
        = hd x * ?sy - ?sy * hd x / 2 - ?sy * hd x / 2"
      by (simp only: e1 e2)
    also have "\<dots> = 0" by simp
    finally show ?thesis unfolding rm sums .
  qed
  have expand: "sq_residuals a' b' ?ps
      = sq_residuals a b ?ps + sum_list (map (\<lambda>p. ((a - a') * p + (b - b'))\<^sup>2) x)" for a' b'
    using sq_residuals_expand[of a' b' ?ps a b] ne1 ne2
      map_fst_of_zip[OF lv, of "\<lambda>p. ((a - a') * p + (b - b'))\<^sup>2"]
    by simp
  have least: "sq_residuals a b ?ps \<le> sq_residuals a' b' ?ps" for a' b'
  proof -
    have "0 \<le> sum_list (map (\<lambda>p. ((a - a') * p + (b - b'))\<^sup>2) x)"
      by (rule sum_list_nonneg) auto
    then show ?thesis unfolding expand[of a' b'] by simp
  qed
  have unique: "a' = a \<and> b' = b"
    if two: "\<exists>p \<in> set x. p \<noteq> hd x"
      and le: "sq_residuals a' b' ?ps \<le> sq_residuals a b ?ps" for a' b'
  proof -
    have nonneg: "0 \<le> sum_list (map (\<lambda>p. ((a - a') * p + (b - b'))\<^sup>2) x)"
      by (rule sum_list_nonneg) auto
    with le have zero: "sum_list (map (\<lambda>p. ((a - a') * p + (b - b'))\<^sup>2) x) = 0"
      unfolding expand[of a' b'] by simp
    have "\<forall>w \<in> set (map (\<lambda>p. ((a - a') * p + (b - b'))\<^sup>2) x). w = 0"
    proof (rule iffD1[OF sum_list_nonneg_eq_0_iff zero])
      fix w assume "w \<in> set (map (\<lambda>p. ((a - a') * p + (b - b'))\<^sup>2) x)"
      then show "0 \<le> w" by auto
    qed
    then have line: "(a - a') * p + (b - b') = 0" if "p \<in> set x" for p
      using that by auto
    from two obtain p where p: "p \<in> set x" "p \<noteq> hd x" by auto
    have "hd x \<in> set x" using ne by simp
    from line[OF this] line[OF p(1)] have "(a - a') * (p - hd x) = 0"
      by (simp add: algebra_simps)
    with p(2) have "a' = a" by simp
    with line[OF p(1)] show ?thesis by simp
  qed
  show ?thesis
    using fit least unique by blast
qed

lemma fit_samples_InrD:
  assumes "fit_samples fe junk env s path method nproc = Inr (pos, ep)"
  shows "length pos = length ep
     \<and> (method = ''avg_edge'' \<longrightarrow>
           (\<exists>pos0 fs. read_eco_scan env path = Inr (pos0, fs) \<and> length pos = length fs
                      \<and> pos = take (length fs) pos0))
     \<and> (method = ''avg_wf'' \<longrightarrow>
           (\<exists>fs. read_eco_scan env path = Inr (pos, fs) \<and> length fs \<le> length pos
                 \<and> (\<forall>i<length pos. length fs \<le> i \<longrightarrow> ep ! i = junk i)))"
proof (cases "method = ''avg_wf''")
  case True
  with assms obtain fs where rd: "read_eco_scan env path = Inr (pos, fs)"
    and loop: "avg_wf_loop fe env s fs 0 (map junk [0..<length pos]) = Inr ep"
    by (auto simp: fit_samples_def split: sum.splits)
  from avg_wf_loop_InrD[OF loop] have len: "length ep = length pos"
    and room: "fs \<noteq> [] \<longrightarrow> length fs \<le> length pos"
    and keep: "\<And>k. k < length pos \<Longrightarrow> length fs \<le> k \<Longrightarrow> ep ! k = map junk [0..<length pos] ! k"
    by auto
  have "length fs \<le> length pos" using room by (cases "fs = []") auto
  moreover have "ep ! i = junk i" if "i < length pos" "length fs \<le> i" for i
    using keep[OF that] that(1) by simp
  ultimately show ?thesis using True rd len by auto
next
  case False
  with assms obtain results where
    eco: "process_eco fe env s path nproc False = Inr results"
    and pos: "pos = map scan_pos_fs results"
    and ep: "ep = map (\<lambda>r. nanmean (edge_pos r)) results"
    and m: "method = ''avg_edge''"
    by (auto simp: fit_samples_def split: sum.splits if_splits)
  from process_eco_InrD[OF eco] obtain pos0 fs fouts where
    rd: "read_eco_scan env path = Inr (pos0, fs)"
    and len: "length fouts = length fs" and le: "length fs \<le> length pos0"
    and res: "results = map (\<lambda>(out, p). with_pos out p) (zip fouts pos0)"
    by blast
  have "map scan_pos_fs results = map snd (zip fouts pos0)"
    unfolding res by (simp add: with_pos_def split_beta)
  also have "\<dots> = take (length fs) pos0"
    using len le by (simp add: map_snd_zip_take)
  finally have tk: "pos = take (length fs) pos0" using pos by simp
  have lr: "length results = length fs" using res len le by simp
  have lp: "length pos = length fs" using pos lr by simp
  have le': "length pos = length ep" using pos ep by simp
  show ?thesis using False rd m tk lp le' by blast
qed

text \<open>
  Claim C9, as amended. \<^verbatim>\<open>calibrate_time\<close> checks no number of samples itself. The two
  sequences it builds for \<^verbatim>\<open>np.polyfit\<close> have the same length: with
  \<^verbatim>\<open>avg_edge\<close> one sample for every recording file of the scan, with
  \<^verbatim>\<open>avg_wf\<close> one for every readback value of the scan, those beyond the number of
  files holding what \<^verbatim>\<open>np.empty\<close> found in memory. An empty sample is rejected by
  numpy. Finite samples whose positions are not all zero are fitted, also when there is
  a single one: the coefficients make the sum of the squared residuals least (an ordinary
  least-squares fit of degree one), and they are the only ones that do when two positions
  differ. Whenever the fit returns, \<^verbatim>\<open>calibrate_time\<close> returns the samples and the
  coefficients and stores the slope as \<^verbatim>\<open>pix_per_fs\<close>, nothing else of the encoder
  being changed.
\<close>
theorem calibrate_time_fit:
  assumes "fit_samples fe junk env s path method nproc = Inr (pos, ep)"
    and "events_channel s \<noteq> None \<or> dark_shot_filter s \<noteq> None \<or> background s \<noteq> None"
  shows "length pos = length ep
     \<and> (method = ''avg_edge'' \<longrightarrow>
           (\<exists>pos0 fs. read_eco_scan env path = Inr (pos0, fs) \<and> length pos = length fs
                      \<and> pos = take (length fs) pos0))
     \<and> (method = ''avg_wf'' \<longrightarrow>
           (\<exists>fs. read_eco_scan env path = Inr (pos, fs) \<and> length fs \<le> length pos
                 \<and> (\<forall>i<length pos. length fs \<le> i \<longrightarrow> ep ! i = junk i)))
     \<and> calibrate_time fe lapack junk env s path method nproc =
         (case polyfit lapack pos ep of
            Inl e \<Rightarrow> Inl e
          | Inr c \<Rightarrow> Inr ((pos, ep, c), s\<lparr>pix_per_fs := Some (fst c)\<rparr>))
     \<and> (pos = [] \<longrightarrow> polyfit lapack pos ep = Inl TypeError)
     \<and> (\<forall>v. pos \<noteq> [] \<and> finite_values ep = Some v
              \<and> (hd pos \<noteq> 0 \<or> (\<exists>p \<in> set pos. p \<noteq> hd pos)) \<longrightarrow>
          (\<exists>a b. polyfit lapack pos ep = Inr (Fin a, Fin b)
              \<and> (\<forall>a' b'. sq_residuals a b (zip pos v) \<le> sq_residuals a' b' (zip pos v))
              \<and> ((\<exists>p \<in> set pos. p \<noteq> hd pos) \<longrightarrow>
                   (\<forall>a' b'. sq_residuals a' b' (zip pos v) \<le> sq_residuals a b (zip pos v)
                             \<longrightarrow> a' = a \<and> b' = b))))"
proof -
  note samples = fit_samples_InrD[OF assms(1)]
  from samples have len: "length pos = length ep" by simp
  have run: "calibrate_time fe lapack junk env s path method nproc =
         (case polyfit lapack pos ep of
            Inl e \<Rightarrow> Inl e
          | Inr c \<Rightarrow> Inr ((pos, ep, c), s\<lparr>pix_per_fs := Some (fst c)\<rparr>))"
    using assms by (auto simp: calibrate_time_def)
  have empty: "pos = [] \<longrightarrow> polyfit lapack pos ep = Inl TypeError"
    by (simp add: polyfit_def)
  have fit: "\<exists>a b. polyfit lapack pos ep = Inr (Fin a, Fin b)
              \<and> (\<forall>a' b'. sq_residuals a b (zip pos v) \<le> sq_residuals a' b' (zip pos v))
              \<and> ((\<exists>p \<in> set pos. p \<noteq> hd pos) \<longrightarrow>
                   (\<forall>a' b'. sq_residuals a' b' (zip pos v) \<le> sq_residuals a b (zip pos v)
                             \<longrightarrow> a' = a \<and> b' = b))"
    if "pos \<noteq> [] \<and> finite_values ep = Some v
              \<and> (hd pos \<noteq> 0 \<or> (\<exists>p \<in> set pos. p \<noteq> hd pos))" for v
    using that polyfit_least_squares[of pos ep v lapack] len by blast
  show ?thesis
    using samples run empty fit by blast
qed

section \<open>The worked example, evaluated\<close>

lemmas example_defs = example_files_def example_encoder_def recording_def camera_group_def
  images_a_def images_b_def first_pixel_def waveforms_a_def reference_a_def
  calibrated_encoder_def output_a_def output_b_def

lemmas array_defs = np_take_def mask_select_def take_mask_def blocks_def mean_axis1_def
  mean_axis0_def fmean_def fsum_def fsub_def wf_array_def Let_def upt_rec

lemmas model_defs = read_bsread_file_def select_shots_def path_of_def truthy_channel_def
  truthy_filter_def has_strategy_def calibrate_background_def store_mean_def process_def
  remove_background_def inplace_def inplace_scalar_def ndim_def set_where_def process_hdf5_def

lemma example_read_a:
  "read_bsread_file example_files example_encoder ''a'' False
   = Inr (waveforms_a, [1, 2], Some [False, True], None)"
  by (simp add: example_defs model_defs array_defs)

lemma example_hdf5_a:
  "process_hdf5 first_pixel example_files example_encoder ''a'' False
   = Inr (output_a, calibrated_encoder)"
  by (simp add: example_defs model_defs array_defs)

lemma example_hdf5_b:
  "process_hdf5 first_pixel example_files example_encoder ''b'' False
   = Inr (output_b, example_encoder\<lparr>background := Some \<lparr>shape = [2], elems = [Fin 3, Fin 6]\<rparr>\<rparr>)"
  by (simp add: example_defs model_defs array_defs)

lemma example_scan:
  "read_eco_scan example_files ''scan'' = Inr ([10 ^ 15, 2 * 10 ^ 15], [''a'', ''b''])"
  by (simp add: example_files_def read_eco_scan_def)

lemma example_scan_one:
  "read_eco_scan example_files ''one'' = Inr ([10 ^ 15], [''a''])"
  by (simp add: example_files_def read_eco_scan_def)

lemma example_strategy: "has_strategy example_encoder"
  by (simp add: example_encoder_def has_strategy_def truthy_filter_def)

lemma example_eco:
  "1 \<le> k \<Longrightarrow> process_eco first_pixel example_files example_encoder ''scan'' k False
     = Inr [with_pos output_a (10 ^ 15), with_pos output_b (2 * 10 ^ 15)]"
  using example_strategy
  by (simp add: process_eco_def example_scan pool_map_hdf5 example_hdf5_a example_hdf5_b)

lemma example_eco_one:
  "1 \<le> k \<Longrightarrow> process_eco first_pixel example_files example_encoder ''one'' k False
     = Inr [with_pos output_a (10 ^ 15)]"
  using example_strategy
  by (simp add: process_eco_def example_scan_one pool_map_hdf5 example_hdf5_a)

theorem calibrate_background_reference_witness:
  "shape waveforms_a = [2, 2] \<and> wf_array waveforms_a \<and> length [False, True] = 2
   \<and> True \<in> set [False, True]
   \<and> calibrate_background example_encoder waveforms_a (Some [False, True]) = Inr calibrated_encoder
   \<and> calibrate_background example_encoder waveforms_a (Some [False, False]) = Inl NoDarkShots
   \<and> calibrate_background calibrated_encoder waveforms_a None
       = Inr (example_encoder\<lparr>background := Some \<lparr>shape = [2], elems = [Fin (11 / 2), Fin 11]\<rparr>\<rparr>)"
  using calibrate_background_reference[of waveforms_a 2 2 "[False, True]" example_encoder]
    calibrate_background_reference[of waveforms_a 2 2 "[False, False]" example_encoder]
  by (simp add: example_defs model_defs array_defs)

theorem background_removal_elementwise_witness:
  "shape waveforms_a = [2, 2] \<and> wf_array waveforms_a
   \<and> background calibrated_encoder = Some reference_a \<and> shape reference_a = [2]
   \<and> process first_pixel calibrated_encoder waveforms_a False
       = Inr (\<lparr>edge_pos = [Fin 9, Fin 0], xcorr_data = [], raw_input = None\<rparr>,
              \<lparr>shape = [2, 2], elems = [Fin 9, Fin 18, Fin 0, Fin 0]\<rparr>)"
  using background_removal_elementwise[of waveforms_a 2 2 calibrated_encoder reference_a
      first_pixel False]
  by (simp add: example_defs model_defs array_defs)

theorem process_1d_as_row_witness:
  "map_sum id (apsnd elems)
     (process first_pixel calibrated_encoder \<lparr>shape = [2], elems = [Fin 10, Fin 20]\<rparr> True)
   = Inr (\<lparr>edge_pos = [Fin 9], xcorr_data = [],
           raw_input = Some \<lparr>shape = [1, 2], elems = [Fin 9, Fin 18]\<rparr>\<rparr>, [Fin 9, Fin 18])
   \<and> process first_pixel calibrated_encoder \<lparr>shape = [1, 2], elems = [Fin 10, Fin 20]\<rparr> True
   = Inr (\<lparr>edge_pos = [Fin 9], xcorr_data = [],
           raw_input = Some \<lparr>shape = [1, 2], elems = [Fin 9, Fin 18]\<rparr>\<rparr>,
          \<lparr>shape = [1, 2], elems = [Fin 9, Fin 18]\<rparr>)"
proof -
  have row: "process first_pixel calibrated_encoder \<lparr>shape = [1, 2], elems = [Fin 10, Fin 20]\<rparr> True
   = Inr (\<lparr>edge_pos = [Fin 9], xcorr_data = [],
           raw_input = Some \<lparr>shape = [1, 2], elems = [Fin 9, Fin 18]\<rparr>\<rparr>,
          \<lparr>shape = [1, 2], elems = [Fin 9, Fin 18]\<rparr>)"
    by (simp add: example_defs model_defs array_defs)
  show ?thesis
    using process_1d_as_row[of first_pixel calibrated_encoder 2 "[Fin 10, Fin 20]" True] row
    by simp
qed

theorem process_overwrites_input_witness:
  "shape waveforms_a = [2, 2] \<and> wf_array waveforms_a
   \<and> background calibrated_encoder = Some reference_a \<and> shape reference_a = [2]
   \<and> process first_pixel calibrated_encoder waveforms_a True
       = Inr (\<lparr>edge_pos = [Fin 9, Fin 0], xcorr_data = [],
               raw_input = Some \<lparr>shape = [2, 2], elems = [Fin 9, Fin 18, Fin 0, Fin 0]\<rparr>\<rparr>,
              \<lparr>shape = [2, 2], elems = [Fin 9, Fin 18, Fin 0, Fin 0]\<rparr>)
   \<and> process first_pixel calibrated_encoder \<lparr>shape = [2, 2], elems = [Fin 9, Fin 18, Fin 0, Fin 0]\<rparr> False
       = Inr (\<lparr>edge_pos = [Fin 8, Fin (- 1)], xcorr_data = [], raw_input = None\<rparr>,
              \<lparr>shape = [2, 2], elems = [Fin 8, Fin 16, Fin (- 1), Fin (- 2)]\<rparr>)
   \<and> (0::nat) < 2 \<and> (1::nat) < 2
   \<and> elems \<lparr>shape = [2, 2], elems = [Fin 8, Fin 16, Fin (- 1), Fin (- 2)]\<rparr> ! (0 * 2 + 1)
       = fsub (fsub (elems waveforms_a ! (0 * 2 + 1)) (elems reference_a ! 1)) (elems reference_a ! 1)"
proof -
  have p1: "process first_pixel calibrated_encoder waveforms_a True
       = Inr (\<lparr>edge_pos = [Fin 9, Fin 0], xcorr_data = [],
               raw_input = Some \<lparr>shape = [2, 2], elems = [Fin 9, Fin 18, Fin 0, Fin 0]\<rparr>\<rparr>,
              \<lparr>shape = [2, 2], elems = [Fin 9, Fin 18, Fin 0, Fin 0]\<rparr>)"
    by (simp add: example_defs model_defs array_defs)
  have p2: "process first_pixel calibrated_encoder \<lparr>shape = [2, 2], elems = [Fin 9, Fin 18, Fin 0, Fin 0]\<rparr> False
       = Inr (\<lparr>edge_pos = [Fin 8, Fin (- 1)], xcorr_data = [], raw_input = None\<rparr>,
              \<lparr>shape = [2, 2], elems = [Fin 8, Fin 16, Fin (- 1), Fin (- 2)]\<rparr>)"
    by (simp add: example_defs model_defs array_defs)
  have h: "shape waveforms_a = [2, 2]" "wf_array waveforms_a"
    "background calibrated_encoder = Some reference_a" "shape reference_a = [2]"
    "background_method calibrated_encoder = ''sub''"
    by (simp_all add: example_defs array_defs)
  have "(0::nat) < 2" "(1::nat) < 2" by simp_all
  from process_overwrites_input[OF h(1-4) p1 p2 this] h(5)
  have "elems \<lparr>shape = [2, 2], elems = [Fin 8, Fin 16, Fin (- 1), Fin (- 2)]\<rparr> ! (0 * 2 + 1)
       = fsub (fsub (elems waveforms_a ! (0 * 2 + 1)) (elems reference_a ! 1)) (elems reference_a ! 1)"
    by simp
  then show ?thesis using p1 p2 h by simp
qed

theorem configuration_checks_witness:
  "init ''cam'' (None, None) ''sub'' 50 None 21 (Some (map (\<lambda>p. p = 2))) 1 ''falling''
     = Inr example_encoder
   \<and> isl (init ''cam'' (None, None) ''sub'' 3 None 21 None 1 ''falling'')
   \<and> \<not> isl (init ''cam'' (None, None) ''sub'' 4 None 21 None 1 ''falling'')
   \<and> isl (init ''cam'' (None, None) ''sub'' 50 (Some ''events'') 21 (Some (map (\<lambda>p. p = 2))) 1 ''falling'')
   \<and> isl (set_background_method example_encoder ''mul'')
   \<and> isl (set_edge_type example_encoder ''flat'')
   \<and> isl (set_step_length example_encoder 3)
   \<and> set_step_length example_encoder 4 = Inr (example_encoder\<lparr>step_length := 4\<rparr>)"
  using configuration_checks[where ch = "''cam''" and r = "(None, None)" and bm = "''mul''"
      and sl = 3 and ec = None and dse = 21 and dsf = None and rf = 1 and et = "''flat''"
      and s = example_encoder]
    configuration_checks[where ch = "''cam''" and r = "(None, None)" and bm = "''sub''"
      and sl = 4 and ec = None and dse = 21 and dsf = None and rf = 1 and et = "''falling''"
      and s = example_encoder]
    configuration_checks[where ch = "''cam''" and r = "(None, None)" and bm = "''sub''"
      and sl = 50 and ec = "Some ''events''" and dse = 21 and dsf = "Some (map (\<lambda>p. p = 2))"
      and rf = 1 and et = "''falling''" and s = example_encoder]
  by (simp add: init_def example_encoder_def background_methods_def edge_types_def
      truthy_channel_def truthy_filter_def)

text \<open>
  Claim C7 as it stands fails: an encoder built with an events channel takes a dark-shot
  predicate by assignment without an error, and then has both.
\<close>
theorem strategies_conflict_unchecked:
  "init ''cam'' (None, None) ''sub'' 50 (Some ''events'') 21 None 1 ''falling''
     = Inr (example_encoder\<lparr>events_channel := Some ''events'', dark_shot_filter := None\<rparr>)
   \<and> set_dark_shot_filter
        (example_encoder\<lparr>events_channel := Some ''events'', dark_shot_filter := None\<rparr>)
        (Some (map (\<lambda>p. p = 2)))
     = Inr (example_encoder\<lparr>events_channel := Some ''events''\<rparr>)
   \<and> truthy_channel (events_channel (example_encoder\<lparr>events_channel := Some ''events''\<rparr>))
   \<and> truthy_filter (dark_shot_filter (example_encoder\<lparr>events_channel := Some ''events''\<rparr>))"
  by (simp add: init_def set_dark_shot_filter_def example_encoder_def background_methods_def
      edge_types_def truthy_channel_def truthy_filter_def)

theorem dark_shots_have_no_edge_witness:
  "has_strategy example_encoder
   \<and> process_hdf5 first_pixel example_files example_encoder ''a'' False
       = Inr (output_a, calibrated_encoder)
   \<and> is_dark output_a = Some [False, True] \<and> edge_pos output_a ! 1 = NaN"
  using dark_shots_have_no_edge[OF example_strategy example_hdf5_a] example_strategy example_hdf5_a
  by (simp add: output_a_def)

text \<open>
  Claim C4 as it stands fails: in recording \<open>a\<close> the second shot is the dark one, and
  the reference that \<^verbatim>\<open>process_hdf5\<close> leaves is the waveform of that shot, not the mean
  of the shots that are not dark.
\<close>
theorem dark_shots_are_the_reference:
  "read_bsread_file example_files example_encoder ''a'' False
     = Inr (\<lparr>shape = [2, 2], elems = [Fin 10, Fin 20, Fin 1, Fin 2]\<rparr>, [1, 2],
            Some [False, True], None)
   \<and> map_sum id (background \<circ> snd)
        (process_hdf5 first_pixel example_files example_encoder ''a'' False)
     = Inr (Some \<lparr>shape = [2], elems = [Fin 1, Fin 2]\<rparr>)
   \<and> map_sum id (background \<circ> snd)
        (process_hdf5 first_pixel example_files example_encoder ''a'' False)
     \<noteq> map_sum id Some
         (mean_axis0 \<lparr>shape = [1, 2], elems = [Fin 10, Fin 20]\<rparr>)"
  using example_read_a example_hdf5_a
  by (simp add: example_defs array_defs)

theorem reference_is_mean_of_dark_shots_witness:
  "has_strategy example_encoder
   \<and> read_bsread_file example_files example_encoder ''a'' False
       = Inr (waveforms_a, [1, 2], Some [False, True], None)
   \<and> shape waveforms_a = [2, 2] \<and> wf_array waveforms_a
   \<and> process_hdf5 first_pixel example_files example_encoder ''a'' False
       = Inr (output_a, calibrated_encoder)
   \<and> background calibrated_encoder = Some reference_a"
proof -
  have h: "shape waveforms_a = [2, 2]" "wf_array waveforms_a"
    by (simp_all add: example_defs array_defs)
  from reference_is_mean_of_dark_shots[OF example_strategy example_read_a h example_hdf5_a]
  have "\<exists>bg. background calibrated_encoder = Some bg" by auto
  then show ?thesis
    using example_strategy example_read_a example_hdf5_a h
    by (simp add: calibrated_encoder_def)
qed


theorem process_eco_order_witness:
  "(1::nat) \<le> 2
   \<and> read_eco_scan example_files ''scan'' = Inr ([10 ^ 15, 2 * 10 ^ 15], [''a'', ''b''])
   \<and> process_eco first_pixel example_files example_encoder ''scan'' 2 False
       = Inr [\<lparr>edge_pos = [Fin 9, NaN], xcorr_data = [], raw_input = None, pulse_id = [1, 2],
                is_dark = Some [False, True], images = None, scan_pos_fs = 10 ^ 15\<rparr>,
              \<lparr>edge_pos = [Fin 27, NaN], xcorr_data = [], raw_input = None, pulse_id = [1, 2],
                is_dark = Some [False, True], images = None, scan_pos_fs = 2 * 10 ^ 15\<rparr>]
   \<and> process_eco first_pixel example_files example_encoder ''scan'' 1 False
       = Inr [\<lparr>edge_pos = [Fin 9, NaN], xcorr_data = [], raw_input = None, pulse_id = [1, 2],
                is_dark = Some [False, True], images = None, scan_pos_fs = 10 ^ 15\<rparr>,
              \<lparr>edge_pos = [Fin 27, NaN], xcorr_data = [], raw_input = None, pulse_id = [1, 2],
                is_dark = Some [False, True], images = None, scan_pos_fs = 2 * 10 ^ 15\<rparr>]
   \<and> scan_pos_fs
        ([\<lparr>edge_pos = [Fin 9, NaN], xcorr_data = [], raw_input = None, pulse_id = [1, 2],
            is_dark = Some [False, True], images = None, scan_pos_fs = 10 ^ 15\<rparr>,
          \<lparr>edge_pos = [Fin 27, NaN], xcorr_data = [], raw_input = None, pulse_id = [1, 2],
            is_dark = Some [False, True], images = None, scan_pos_fs = 2 * 10 ^ 15\<rparr>] ! 1)
       = [10 ^ 15, 2 * 10 ^ 15] ! 1"
proof -
  let ?outs = "[\<lparr>edge_pos = [Fin 9, NaN], xcorr_data = [], raw_input = None, pulse_id = [1, 2],
                is_dark = Some [False, True], images = None, scan_pos_fs = 10 ^ 15\<rparr>,
              \<lparr>edge_pos = [Fin 27, NaN], xcorr_data = [], raw_input = None, pulse_id = [1, 2],
                is_dark = Some [False, True], images = None, scan_pos_fs = 2 * 10 ^ 15 :: real\<rparr>]"
  have two: "(1::nat) \<le> 2" by simp
  have eco: "process_eco first_pixel example_files example_encoder ''scan'' 2 False = Inr ?outs"
    using example_eco[OF two] by (simp add: with_pos_def output_a_def output_b_def)
  from process_eco_order[OF two example_scan eco]
  have one: "process_eco first_pixel example_files example_encoder ''scan'' 1 False = Inr ?outs"
    and pos: "scan_pos_fs (?outs ! 1) = [10 ^ 15, 2 * 10 ^ 15] ! 1"
    by simp_all
  show ?thesis
    using example_scan eco one pos by simp
qed

lemma example_samples:
  "fit_samples first_pixel (\<lambda>i. NaN) example_files example_encoder ''scan'' ''avg_edge'' 1
     = Inr ([10 ^ 15, 2 * 10 ^ 15], [Fin 9, Fin 27])"
  by (simp add: fit_samples_def example_eco with_pos_def output_a_def output_b_def nanmean_def
      fmean_def fsum_def)

lemma example_samples_one:
  "fit_samples first_pixel (\<lambda>i. NaN) example_files example_encoder ''one'' ''avg_edge'' 1
     = Inr ([10 ^ 15], [Fin 9])"
  by (simp add: fit_samples_def example_eco_one with_pos_def output_a_def nanmean_def
      fmean_def fsum_def)

lemma example_scan_wide:
  "read_eco_scan example_files ''wide'' = Inr ([10 ^ 15, 2 * 10 ^ 15], [''a''])"
  by (simp add: example_files_def read_eco_scan_def)

lemma example_samples_wide:
  "fit_samples first_pixel (\<lambda>i. Fin 7) example_files calibrated_encoder ''wide'' ''avg_wf'' 1
     = Inr ([10 ^ 15, 2 * 10 ^ 15], [Fin (9 / 2), Fin 7])"
proof -
  note scan = example_scan_wide
  have rd: "read_bsread_file example_files calibrated_encoder ''a'' False
            = Inr (waveforms_a, [1, 2], Some [False, True], None)"
    by (simp add: example_defs model_defs array_defs)
  have mean: "mean_axis0 waveforms_a = Inr \<lparr>shape = [2], elems = [Fin (11 / 2), Fin 11]\<rparr>"
    by (simp add: example_defs array_defs)
  have pr: "process first_pixel calibrated_encoder \<lparr>shape = [2], elems = [Fin (11 / 2), Fin 11]\<rparr> False
            = Inr (\<lparr>edge_pos = [Fin (9 / 2)], xcorr_data = [], raw_input = None\<rparr>,
                   \<lparr>shape = [2], elems = [Fin (9 / 2), Fin 9]\<rparr>)"
    by (simp add: example_defs model_defs array_defs)
  show ?thesis
    by (simp add: fit_samples_def scan rd mean pr upt_rec)
qed

lemma example_fit:
  "polyfit lapack_unreached [10 ^ 15, 2 * 10 ^ 15] [Fin 9, Fin 27]
     = Inr (Fin (18 / 10 ^ 15), Fin (- 9))"
  by (simp add: polyfit_def Let_def)

lemma example_fit_one:
  "polyfit lapack_unreached [10 ^ 15] [Fin 9] = Inr (Fin (9 / (2 * 10 ^ 15)), Fin (9 / 2))"
  by (simp add: polyfit_def Let_def)

lemma example_calibrated: "dark_shot_filter example_encoder \<noteq> None"
  by (simp add: example_encoder_def)

text \<open>
  Claim C9 as it stands fails: on a scan of a single step the fit gets one sample, and
  \<^verbatim>\<open>calibrate_time\<close> returns and stores a slope.
\<close>
theorem single_sample_is_fitted:
  "length [10 ^ 15 :: real] < 2
   \<and> calibrate_time first_pixel lapack_unreached (\<lambda>i. NaN) example_files example_encoder
        ''one'' ''avg_edge'' 1
     = Inr (([10 ^ 15], [Fin 9], (Fin (9 / (2 * 10 ^ 15)), Fin (9 / 2))),
            example_encoder\<lparr>pix_per_fs := Some (Fin (9 / (2 * 10 ^ 15)))\<rparr>)"
proof -
  have run: "calibrate_time first_pixel lapack_unreached (\<lambda>i. NaN) example_files example_encoder
        ''one'' ''avg_edge'' 1
     = Inr (([10 ^ 15], [Fin 9], (Fin (9 / (2 * 10 ^ 15)), Fin (9 / 2))),
            example_encoder\<lparr>pix_per_fs := Some (Fin (9 / (2 * 10 ^ 15)))\<rparr>)"
    by (simp only: calibrate_time_def example_samples_one example_fit_one example_calibrated
        simp_thms if_False sum.case prod.case fst_conv)
  show ?thesis using run by simp
qed

theorem calibrate_time_fit_witness:
  "fit_samples first_pixel (\<lambda>i. NaN) example_files example_encoder ''scan'' ''avg_edge'' 1
     = Inr ([10 ^ 15, 2 * 10 ^ 15], [Fin 9, Fin 27])
   \<and> dark_shot_filter example_encoder \<noteq> None
   \<and> calibrate_time first_pixel lapack_unreached (\<lambda>i. NaN) example_files example_encoder
        ''scan'' ''avg_edge'' 1
     = Inr (([10 ^ 15, 2 * 10 ^ 15], [Fin 9, Fin 27], (Fin (18 / 10 ^ 15), Fin (- 9))),
            example_encoder\<lparr>pix_per_fs := Some (Fin (18 / 10 ^ 15))\<rparr>)
   \<and> sq_residuals (18 / 10 ^ 15) (- 9) [(10 ^ 15, 9), (2 * 10 ^ 15, 27)]
       \<le> sq_residuals 0 0 [(10 ^ 15, 9), (2 * 10 ^ 15, 27)]
   \<and> fit_samples first_pixel (\<lambda>i. Fin 7) example_files calibrated_encoder ''wide'' ''avg_wf'' 1
     = Inr ([10 ^ 15, 2 * 10 ^ 15], [Fin (9 / 2), Fin 7])
   \<and> [Fin (9 / 2), Fin 7] ! 1 = Fin 7"
proof -
  have cal: "events_channel example_encoder \<noteq> None \<or> dark_shot_filter example_encoder \<noteq> None
             \<or> background example_encoder \<noteq> None"
    using example_calibrated by simp
  note fit = calibrate_time_fit[OF example_samples cal, of lapack_unreached]
  from fit have run0: "calibrate_time first_pixel lapack_unreached (\<lambda>i. NaN) example_files
        example_encoder ''scan'' ''avg_edge'' 1
     = (case polyfit lapack_unreached [10 ^ 15, 2 * 10 ^ 15] [Fin 9, Fin 27] of
          Inl e \<Rightarrow> Inl e
        | Inr c \<Rightarrow> Inr (([10 ^ 15, 2 * 10 ^ 15], [Fin 9, Fin 27], c),
                        example_encoder\<lparr>pix_per_fs := Some (fst c)\<rparr>))"
    by blast
  have run: "calibrate_time first_pixel lapack_unreached (\<lambda>i. NaN) example_files
        example_encoder ''scan'' ''avg_edge'' 1
     = Inr (([10 ^ 15, 2 * 10 ^ 15], [Fin 9, Fin 27], (Fin (18 / 10 ^ 15), Fin (- 9))),
            example_encoder\<lparr>pix_per_fs := Some (Fin (18 / 10 ^ 15))\<rparr>)"
    by (simp only: run0 example_fit sum.case fst_conv)
  have fv: "finite_values [Fin 9, Fin 27] = Some [9, 27]" by simp
  have ne: "[10 ^ 15, 2 * 10 ^ 15] \<noteq> ([] :: real list)" by simp
  have two: "\<exists>p \<in> set [10 ^ 15, 2 * 10 ^ 15]. p \<noteq> hd [10 ^ 15, 2 * 10 ^ 15 :: real]" by simp
  from fit fv ne two obtain a b where
    ab: "polyfit lapack_unreached [10 ^ 15, 2 * 10 ^ 15] [Fin 9, Fin 27] = Inr (Fin a, Fin b)"
    and least: "\<forall>a' b'. sq_residuals a b (zip [10 ^ 15, 2 * 10 ^ 15] [9, 27])
                  \<le> sq_residuals a' b' (zip [10 ^ 15, 2 * 10 ^ 15] [9, 27])"
    by blast
  from ab have "Inr (Fin a, Fin b) = (Inr (Fin (18 / 10 ^ 15), Fin (- 9)) :: error + npfloat \<times> npfloat)"
    by (simp only: example_fit)
  then have "a = 18 / 10 ^ 15" "b = - 9" by simp_all
  with least have res:
    "sq_residuals (18 / 10 ^ 15) (- 9) [(10 ^ 15, 9), (2 * 10 ^ 15, 27)]
       \<le> sq_residuals 0 0 [(10 ^ 15, 9), (2 * 10 ^ 15, 27)]"
    by simp
  have calw: "events_channel calibrated_encoder \<noteq> None
       \<or> dark_shot_filter calibrated_encoder \<noteq> None \<or> background calibrated_encoder \<noteq> None"
    by (simp add: calibrated_encoder_def)
  have wf: "''avg_wf'' = ''avg_wf''" by simp
  from calibrate_time_fit[OF example_samples_wide calw, of lapack_unreached] wf
  obtain fs where rd: "read_eco_scan example_files ''wide'' = Inr ([10 ^ 15, 2 * 10 ^ 15], fs)"
    and junk: "\<forall>i<length [10 ^ 15, 2 * 10 ^ 15 :: real]. length fs \<le> i
                  \<longrightarrow> [Fin (9 / 2), Fin 7] ! i = (\<lambda>i. Fin 7) i"
    by blast
  from rd have "fs = [''a'']" by (simp only: example_scan_wide sum.inject prod.inject)
  with junk have last: "[Fin (9 / 2), Fin 7] ! 1 = Fin 7" by simp
  show ?thesis
    using example_samples example_calibrated run res example_samples_wide last by simp
qed

end
